theory Spec2Isabelle
  imports Main
begin

section \<open>The installer of oh-my-opencode-slim (src/cli/install.ts)\<close>

text \<open>
  A shallow embedding of \<^verbatim>\<open>src/cli/install.ts\<close>. Pure helpers are HOL functions.
  The asynchronous functions are sequential (every call is awaited at once), so they are
  state transformers on a run state that holds the outside world, the number of stream
  readers currently held, and the trace of everything the run did: each call of a
  collaborator with what it returned, and each call of a print helper with its arguments.
  A rejected promise is the left injection of a sum.

  Text that the program prints is a \<^typ>\<open>string\<close> of bytes (UTF-8); the symbols of the
  source that lie outside ASCII are written as their UTF-8 bytes. Text that the user
  types is a JavaScript string, a sequence of UTF-16 code units.
\<close>

subsection \<open>Data model (./types, as install.ts uses it)\<close>

text \<open>
  \<^verbatim>\<open>InstallArgs\<close>: the flag values are typed \<^verbatim>\<open>BooleanArg | undefined\<close>, but
  \<^verbatim>\<open>validateNonTuiArgs\<close> tests them at run time against any string, so a flag is an
  optional string and \<^verbatim>\<open>undefined\<close> is \<^term>\<open>None\<close>.
\<close>

type_synonym BooleanArg = string

record InstallArgs =
  tui :: bool
  antigravity :: "string option"
  openai :: "string option"
  cerebras :: "string option"

record InstallConfig =
  hasAntigravity :: bool
  hasOpenAI :: bool
  hasCerebras :: bool

text \<open>\<^verbatim>\<open>DetectedConfig\<close> has the three capability flags and \<^verbatim>\<open>isInstalled\<close>.\<close>

record DetectedConfig = InstallConfig +
  isInstalled :: bool

text \<open>
  The result of a delegated step: \<^verbatim>\<open>success\<close>, and the optional \<^verbatim>\<open>error\<close> and
  \<^verbatim>\<open>configPath\<close> strings.
\<close>

record StepResult =
  success :: bool
  error :: "string option"
  configPath :: "string option"

record ValidationResult =
  valid :: bool
  errors :: "string list"

subsection \<open>Colour and symbol constants\<close>

definition ESC :: string where "ESC = [CHR 0x1B]"

definition GREEN :: string where "GREEN = ESC @ ''[32m''"
definition BLUE :: string where "BLUE = ESC @ ''[34m''"
definition YELLOW :: string where "YELLOW = ESC @ ''[33m''"
definition RED :: string where "RED = ESC @ ''[31m''"
definition BOLD :: string where "BOLD = ESC @ ''[1m''"
definition DIM :: string where "DIM = ESC @ ''[2m''"
definition RESET :: string where "RESET = ESC @ ''[0m''"

definition SYMBOLS_check :: string where
  "SYMBOLS_check = GREEN @ [CHR 0xE2, CHR 0x9C, CHR 0x93] @ RESET"
definition SYMBOLS_cross :: string where
  "SYMBOLS_cross = RED @ [CHR 0xE2, CHR 0x9C, CHR 0x97] @ RESET"
definition SYMBOLS_arrow :: string where
  "SYMBOLS_arrow = BLUE @ [CHR 0xE2, CHR 0x86, CHR 0x92] @ RESET"
definition SYMBOLS_bullet :: string where
  "SYMBOLS_bullet = DIM @ [CHR 0xE2, CHR 0x80, CHR 0xA2] @ RESET"
definition SYMBOLS_info :: string where
  "SYMBOLS_info = BLUE @ [CHR 0xE2, CHR 0x84, CHR 0xB9] @ RESET"
definition SYMBOLS_warn :: string where
  "SYMBOLS_warn = YELLOW @ [CHR 0xE2, CHR 0x9A, CHR 0xA0] @ RESET"
definition SYMBOLS_star :: string where
  "SYMBOLS_star = YELLOW @ [CHR 0xE2, CHR 0x98, CHR 0x85] @ RESET"

text \<open>The hollow circle of an unchecked line of the summary.\<close>

definition circle :: string where
  "circle = [CHR 0xE2, CHR 0x97, CHR 0x8B]"

text \<open>
  A template literal prints an absent optional string as \<^verbatim>\<open>undefined\<close>;
  \<^verbatim>\<open>version ?? ""\<close> prints it as the empty string.
\<close>

definition template :: "string option \<Rightarrow> string" where
  "template v = (case v of None \<Rightarrow> ''undefined'' | Some x \<Rightarrow> x)"

definition orEmpty :: "string option \<Rightarrow> string" where
  "orEmpty v = (case v of None \<Rightarrow> [] | Some x \<Rightarrow> x)"

definition newline :: string where "newline = [CHR 0x0A]"

fun join :: "string \<Rightarrow> string list \<Rightarrow> string" where
  "join sep [] = []"
| "join sep [l] = l"
| "join sep (l # ls) = l @ sep @ join sep ls"

definition formatConfigSummary :: "'a InstallConfig_scheme \<Rightarrow> string" where
  "formatConfigSummary config =
     (let lines = [] @ [BOLD @ ''Configuration Summary'' @ RESET];
          lines = lines @ [[]];
          lines = lines @ [''  '' @ (if hasAntigravity config then SYMBOLS_check
                                     else DIM @ circle @ RESET) @ '' Antigravity''];
          lines = lines @ [''  '' @ (if hasOpenAI config then SYMBOLS_check
                                     else DIM @ circle @ RESET) @ '' OpenAI''];
          lines = lines @ [''  '' @ (if hasCerebras config then SYMBOLS_check
                                     else DIM @ circle @ RESET) @ '' Cerebras'']
      in join newline lines)"

subsection \<open>Validation of the non-interactive arguments\<close>

text \<open>\<^verbatim>\<open>["yes", "no"].includes(v)\<close>\<close>

definition yes_no_includes :: "string \<Rightarrow> bool" where
  "yes_no_includes v = (v \<in> set [''yes'', ''no''])"

definition validateNonTuiArgs :: "InstallArgs \<Rightarrow> ValidationResult" where
  "validateNonTuiArgs args =
     (let errs = [];
          errs = (case antigravity args of
                    None \<Rightarrow> errs @ [''--antigravity is required (values: yes, no)'']
                  | Some v \<Rightarrow>
                      if \<not> yes_no_includes v
                      then errs @ [''Invalid --antigravity value: '' @ v @ '' (expected: yes, no)'']
                      else errs);
          errs = (case openai args of
                    None \<Rightarrow> errs @ [''--openai is required (values: yes, no)'']
                  | Some v \<Rightarrow>
                      if \<not> yes_no_includes v
                      then errs @ [''Invalid --openai value: '' @ v @ '' (expected: yes, no)'']
                      else errs);
          errs = (case cerebras args of
                    None \<Rightarrow> errs @ [''--cerebras is required (values: yes, no)'']
                  | Some v \<Rightarrow>
                      if \<not> yes_no_includes v
                      then errs @ [''Invalid --cerebras value: '' @ v @ '' (expected: yes, no)'']
                      else errs)
      in \<lparr>valid = (length errs = 0), errors = errs\<rparr>)"

definition argsToConfig :: "InstallArgs \<Rightarrow> InstallConfig" where
  "argsToConfig args =
     \<lparr>hasAntigravity = (antigravity args = Some ''yes''),
      hasOpenAI = (openai args = Some ''yes''),
      hasCerebras = (cerebras args = Some ''yes'')\<rparr>"

text \<open>The three seeded defaults, in the order antigravity, openai, cerebras.\<close>

definition detectedToInitialValues :: "DetectedConfig \<Rightarrow> BooleanArg \<times> BooleanArg \<times> BooleanArg" where
  "detectedToInitialValues detected =
     (if hasAntigravity detected then ''yes'' else ''no'',
      if hasOpenAI detected then ''yes'' else ''no'',
      if hasCerebras detected then ''yes'' else ''no'')"

subsection \<open>The run state, the collaborators and the trace\<close>

datatype collaborator =
    DetectCurrentConfig
  | IsOpenCodeInstalled
  | GetOpenCodeVersion
  | AddPluginToOpenCodeConfig
  | AddAuthPlugins
  | AddProviderConfig
  | WriteLiteConfig

text \<open>What a collaborator returned.\<close>

datatype reply =
    Detected DetectedConfig
  | Installed bool
  | Version "string option"
  | Step StepResult

text \<open>
  A JavaScript string is a sequence of UTF-16 code units. The text that the user types
  is held as such a sequence, since \<^verbatim>\<open>trim\<close> and \<^verbatim>\<open>toLowerCase\<close> work on code units;
  \<open>units\<close> gives the code units of a literal of the source, which is ASCII.
\<close>

type_synonym code_unit = nat

type_synonym js_string = "code_unit list"

definition units :: "string \<Rightarrow> js_string" where
  "units text = map of_char text"

text \<open>
  \<^verbatim>\<open>await reader.read()\<close> either rejects or resolves to a chunk; \<^verbatim>\<open>value\<close> is
  \<^verbatim>\<open>undefined\<close> (\<^term>\<open>None\<close>) when the stream closed without data. The chunk is held as
  the string that \<^verbatim>\<open>new TextDecoder().decode(value)\<close> gives for it.
\<close>

datatype read_outcome = ReadThrows | ReadValue "js_string option"

datatype exn = ReadRejected

text \<open>
  One event for each call of a collaborator, of a print helper (with its arguments), of
  \<^verbatim>\<open>console.log\<close> and \<^verbatim>\<open>process.stdout.write\<close> made directly, and of the three
  operations on the input stream.
\<close>

datatype event =
    Invoked collaborator reply
  | PrintHeader bool
  | PrintStep nat nat string
  | PrintSuccess string
  | PrintError string
  | PrintInfo string
  | PrintWarning string
  | ConsoleLog string
  | StdoutWrite string
  | GetReader
  | Read read_outcome
  | ReleaseLock

text \<open>
  The functions imported from \<^verbatim>\<open>./config-manager\<close> and the read of standard input
  are not part of install.ts: they are parameters, each a function of the outside world
  \<open>'w\<close> that returns its result and the world after the call. A collaborator of
  \<^verbatim>\<open>./config-manager\<close> reports a failure in its result and is taken to return; the
  read of standard input is the one call that may reject.
\<close>

record 'w collaborators =
  detectCurrentConfig :: "'w \<Rightarrow> DetectedConfig \<times> 'w"
  isOpenCodeInstalled :: "'w \<Rightarrow> bool \<times> 'w"
  getOpenCodeVersion :: "'w \<Rightarrow> string option \<times> 'w"
  addPluginToOpenCodeConfig :: "'w \<Rightarrow> StepResult \<times> 'w"
  addAuthPlugins :: "InstallConfig \<Rightarrow> 'w \<Rightarrow> StepResult \<times> 'w"
  addProviderConfig :: "InstallConfig \<Rightarrow> 'w \<Rightarrow> StepResult \<times> 'w"
  writeLiteConfig :: "InstallConfig \<Rightarrow> 'w \<Rightarrow> StepResult \<times> 'w"
  stdin_read :: "'w \<Rightarrow> read_outcome \<times> 'w"

record 'w run_state =
  world :: 'w
  held :: nat
  trace :: "event list"

definition emit :: "event \<Rightarrow> 'w run_state \<Rightarrow> 'w run_state" where
  "emit e s = s\<lparr>trace := trace s @ [e]\<rparr>"

text \<open>A call of a collaborator: run it on the world and record the call with its reply.\<close>

definition invoke ::
  "collaborator \<Rightarrow> ('a \<Rightarrow> reply) \<Rightarrow> ('w \<Rightarrow> 'a \<times> 'w) \<Rightarrow> 'w run_state \<Rightarrow> 'a \<times> 'w run_state" where
  "invoke c wrap f s =
     (let (r, w) = f (world s) in (r, emit (Invoked c (wrap r)) (s\<lparr>world := w\<rparr>)))"

subsection \<open>Print helpers\<close>

definition console_log :: "string \<Rightarrow> 'w run_state \<Rightarrow> 'w run_state" where
  "console_log line = emit (ConsoleLog line)"

definition stdout_write :: "string \<Rightarrow> 'w run_state \<Rightarrow> 'w run_state" where
  "stdout_write text = emit (StdoutWrite text)"

definition printHeader :: "bool \<Rightarrow> 'w run_state \<Rightarrow> 'w run_state" where
  "printHeader isUpdate = emit (PrintHeader isUpdate)"

definition printStep :: "nat \<Rightarrow> nat \<Rightarrow> string \<Rightarrow> 'w run_state \<Rightarrow> 'w run_state" where
  "printStep step total_steps message = emit (PrintStep step total_steps message)"

definition printSuccess :: "string \<Rightarrow> 'w run_state \<Rightarrow> 'w run_state" where
  "printSuccess message = emit (PrintSuccess message)"

definition printError :: "string \<Rightarrow> 'w run_state \<Rightarrow> 'w run_state" where
  "printError message = emit (PrintError message)"

definition printInfo :: "string \<Rightarrow> 'w run_state \<Rightarrow> 'w run_state" where
  "printInfo message = emit (PrintInfo message)"

definition printWarning :: "string \<Rightarrow> 'w run_state \<Rightarrow> 'w run_state" where
  "printWarning message = emit (PrintWarning message)"

text \<open>
  The lines that an event of a print helper puts on the console, as the helper's body
  builds them (\<^verbatim>\<open>[step/total]\<close> is printed in decimal).
\<close>

fun digits :: "nat \<Rightarrow> string" where
  "digits n = (if n < 10 then [char_of (48 + n)] else digits (n div 10) @ [char_of (48 + n mod 10)])"

definition console_lines :: "event \<Rightarrow> string list" where
  "console_lines e =
     (case e of
        PrintHeader isUpdate \<Rightarrow>
          (let mode = (if isUpdate then ''Update'' else ''Install'')
           in ['''', BOLD @ ''oh-my-opencode-slim '' @ mode @ RESET, replicate 30 CHR ''='', ''''])
      | PrintStep step total_steps message \<Rightarrow>
          [DIM @ ''['' @ digits step @ ''/'' @ digits total_steps @ '']'' @ RESET @ '' '' @ message]
      | PrintSuccess message \<Rightarrow> [SYMBOLS_check @ '' '' @ message]
      | PrintError message \<Rightarrow> [SYMBOLS_cross @ '' '' @ RED @ message @ RESET]
      | PrintInfo message \<Rightarrow> [SYMBOLS_info @ '' '' @ message]
      | PrintWarning message \<Rightarrow> [SYMBOLS_warn @ '' '' @ YELLOW @ message @ RESET]
      | ConsoleLog line \<Rightarrow> [line]
      | _ \<Rightarrow> [])"

subsection \<open>The interactive prompter\<close>

text \<open>
  \<^verbatim>\<open>String.prototype.trim\<close> removes, at both ends, the code units that ECMAScript calls
  WhiteSpace and LineTerminator: tab, vertical tab, form feed, space, no-break space
  (U+00A0), the byte order mark (U+FEFF) and the other space separators of Unicode
  (U+1680, U+2000 to U+200A, U+202F, U+205F, U+3000); line feed, carriage return, line
  separator (U+2028) and paragraph separator (U+2029).
\<close>

definition isWhiteSpace :: "code_unit \<Rightarrow> bool" where
  "isWhiteSpace c =
     (c \<in> set [0x0009, 0x000A, 0x000B, 0x000C, 0x000D, 0x0020, 0x00A0, 0x1680,
               0x2000, 0x2001, 0x2002, 0x2003, 0x2004, 0x2005, 0x2006, 0x2007, 0x2008,
               0x2009, 0x200A, 0x2028, 0x2029, 0x202F, 0x205F, 0x3000, 0xFEFF])"

definition trim :: "js_string \<Rightarrow> js_string" where
  "trim text = rev (dropWhile isWhiteSpace (rev (dropWhile isWhiteSpace text)))"

text \<open>
  \<^verbatim>\<open>String.prototype.toLowerCase\<close> on the letters A to Z. The other code units are
  left as they are: Unicode maps no character other than these letters to a letter of
  \<^verbatim>\<open>y\<close>, \<^verbatim>\<open>yes\<close>, \<^verbatim>\<open>n\<close> or \<^verbatim>\<open>no\<close>, so the comparisons of \<^verbatim>\<open>askYesNo\<close> come out
  the same.
\<close>

definition toLowerCase_unit :: "code_unit \<Rightarrow> code_unit" where
  "toLowerCase_unit c = (if 0x41 \<le> c \<and> c \<le> 0x5A then c + 0x20 else c)"

definition toLowerCase :: "js_string \<Rightarrow> js_string" where
  "toLowerCase text = map toLowerCase_unit text"

definition getReader :: "'w run_state \<Rightarrow> 'w run_state" where
  "getReader s = emit GetReader (s\<lparr>held := held s + 1\<rparr>)"

definition releaseLock :: "'w run_state \<Rightarrow> 'w run_state" where
  "releaseLock s = emit ReleaseLock (s\<lparr>held := held s - 1\<rparr>)"

definition reader_read :: "'w collaborators \<Rightarrow> 'w run_state \<Rightarrow> read_outcome \<times> 'w run_state" where
  "reader_read cs s =
     (let (r, w) = stdin_read cs (world s) in (r, emit (Read r) (s\<lparr>world := w\<rparr>)))"

text \<open>
  \<^verbatim>\<open>askYesNo\<close>. Every caller passes the default, so the parameter's own default
  \<^verbatim>\<open>"no"\<close> is never used. When the read rejects, the exception leaves the function at
  the \<^verbatim>\<open>await\<close>, before \<^verbatim>\<open>reader.releaseLock()\<close>.
\<close>

definition askYesNo ::
  "'w collaborators \<Rightarrow> string \<Rightarrow> BooleanArg \<Rightarrow> 'w run_state \<Rightarrow> (exn + BooleanArg) \<times> 'w run_state" where
  "askYesNo cs prompt defaultValue s =
     (let defaultHint = (if defaultValue = ''yes'' then ''[Y/n]'' else ''[y/N]'');
          s = stdout_write (BLUE @ prompt @ RESET @ '' '' @ defaultHint @ '': '') s;
          s = getReader s;
          (r, s) = reader_read cs s
      in case r of
           ReadThrows \<Rightarrow> (Inl ReadRejected, s)
         | ReadValue val \<Rightarrow>
             (let s = releaseLock s;
                  answer = (case val of None \<Rightarrow> [] | Some text \<Rightarrow> toLowerCase (trim text))
              in (Inr (if answer = [] \<or> answer = units newline then defaultValue
                       else if answer = units ''y'' \<or> answer = units ''yes'' then ''yes''
                       else if answer = units ''n'' \<or> answer = units ''no'' then ''no''
                       else defaultValue), s)))"

text \<open>\<^verbatim>\<open>runTuiMode\<close> returns \<^verbatim>\<open>InstallConfig | null\<close>; \<^verbatim>\<open>null\<close> is \<^term>\<open>None\<close>.\<close>

definition runTuiMode ::
  "'w collaborators \<Rightarrow> DetectedConfig \<Rightarrow> 'w run_state \<Rightarrow> (exn + InstallConfig option) \<times> 'w run_state" where
  "runTuiMode cs detected s =
     (let (initial_antigravity, initial_openai, initial_cerebras) = detectedToInitialValues detected;
          s = console_log (BOLD @ ''Question 1/3:'' @ RESET) s;
          (r, s) = askYesNo cs ''Do you have an Antigravity subscription?'' initial_antigravity s
      in case r of
           Inl e \<Rightarrow> (Inl e, s)
         | Inr antigravity' \<Rightarrow>
             (let s = console_log [] s;
                  s = console_log (BOLD @ ''Question 2/3:'' @ RESET) s;
                  (r, s) = askYesNo cs ''Do you have access to OpenAI API?'' initial_openai s
              in case r of
                   Inl e \<Rightarrow> (Inl e, s)
                 | Inr openai' \<Rightarrow>
                     (let s = console_log [] s;
                          s = console_log (BOLD @ ''Question 3/3:'' @ RESET) s;
                          (r, s) = askYesNo cs ''Do you have access to Cerebras API?'' initial_cerebras s
                      in case r of
                           Inl e \<Rightarrow> (Inl e, s)
                         | Inr cerebras' \<Rightarrow>
                             (let s = console_log [] s
                              in (Inr (Some \<lparr>hasAntigravity = (antigravity' = ''yes''),
                                              hasOpenAI = (openai' = ''yes''),
                                              hasCerebras = (cerebras' = ''yes'')\<rparr>), s)))))"

subsection \<open>The step orchestrator\<close>

text \<open>
  Lines 202 to 232 of \<^verbatim>\<open>runInstall\<close>: what follows the block that is conditional on
  \<^verbatim>\<open>config.hasAntigravity\<close>, from the current value of the step counter.
\<close>

definition runInstall_finish ::
  "'w collaborators \<Rightarrow> InstallConfig \<Rightarrow> bool \<Rightarrow> nat \<Rightarrow> nat \<Rightarrow> 'w run_state \<Rightarrow> nat \<times> 'w run_state" where
  "runInstall_finish cs config isUpdate totalSteps step s =
     (let s = printStep step totalSteps ''Writing oh-my-opencode-slim configuration...'' s;
          step = step + 1;
          (liteResult, s) = invoke WriteLiteConfig Step (writeLiteConfig cs config) s
      in if \<not> success liteResult then
           (let s = printError (''Failed: '' @ template (error liteResult)) s in (1, s))
         else
           (let s = printSuccess (''Config written '' @ SYMBOLS_arrow @ '' '' @ DIM
                                   @ template (configPath liteResult) @ RESET) s;
                s = console_log [] s;
                s = console_log (formatConfigSummary config) s;
                s = console_log [] s
            in if \<not> hasAntigravity config \<and> \<not> hasOpenAI config \<and> \<not> hasCerebras config then
                 (let s = printWarning ''No providers configured. At least one provider is required.'' s
                  in (1, s))
               else
                 (let s = console_log (SYMBOLS_star @ '' '' @ BOLD @ GREEN
                            @ (if isUpdate then ''Configuration updated!'' else ''Installation complete!'')
                            @ RESET) s;
                      s = console_log [] s;
                      s = console_log (BOLD @ ''Next steps:'' @ RESET) s;
                      s = console_log [] s;
                      s = console_log ''  1. Authenticate with your providers:'' s;
                      s = console_log (''     '' @ BLUE @ ''$ opencode auth login'' @ RESET) s;
                      s = console_log [] s;
                      s = console_log ''  2. Start OpenCode:'' s;
                      s = console_log (''     '' @ BLUE @ ''$ opencode'' @ RESET) s;
                      s = console_log [] s
                  in (0, s))))"

definition runInstall ::
  "'w collaborators \<Rightarrow> InstallArgs \<Rightarrow> InstallConfig \<Rightarrow> 'w run_state \<Rightarrow> nat \<times> 'w run_state" where
  "runInstall cs args config s =
     (let (detected, s) = invoke DetectCurrentConfig Detected (detectCurrentConfig cs) s;
          isUpdate = isInstalled detected;
          s = printHeader isUpdate s;
          totalSteps = (if hasAntigravity config then 5 else 3);
          step = 1;
          s = printStep step totalSteps ''Checking OpenCode installation...'' s;
          step = step + 1;
          (installed, s) = invoke IsOpenCodeInstalled Installed (isOpenCodeInstalled cs) s
      in if \<not> installed then
           (let s = printError ''OpenCode is not installed on this system.'' s;
                s = printInfo ''Visit https://opencode.ai/docs for installation instructions'' s
            in (1, s))
         else
           (let (version, s) = invoke GetOpenCodeVersion Version (getOpenCodeVersion cs) s;
                s = printSuccess (''OpenCode '' @ orEmpty version @ '' detected'') s;
                s = printStep step totalSteps ''Adding oh-my-opencode-slim plugin...'' s;
                step = step + 1;
                (pluginResult, s) =
                  invoke AddPluginToOpenCodeConfig Step (addPluginToOpenCodeConfig cs) s
            in if \<not> success pluginResult then
                 (let s = printError (''Failed: '' @ template (error pluginResult)) s in (1, s))
               else
                 (let s = printSuccess (''Plugin added '' @ SYMBOLS_arrow @ '' '' @ DIM
                                         @ template (configPath pluginResult) @ RESET) s
                  in if hasAntigravity config then
                       (let s = printStep step totalSteps ''Adding auth plugins...'' s;
                            step = step + 1;
                            (authResult, s) = invoke AddAuthPlugins Step (addAuthPlugins cs config) s
                        in if \<not> success authResult then
                             (let s = printError (''Failed: '' @ template (error authResult)) s
                              in (1, s))
                           else
                             (let s = printSuccess (''Auth plugins configured '' @ SYMBOLS_arrow
                                        @ '' '' @ DIM @ template (configPath authResult) @ RESET) s;
                                  s = printStep step totalSteps ''Adding provider configurations...'' s;
                                  step = step + 1;
                                  (providerResult, s) =
                                    invoke AddProviderConfig Step (addProviderConfig cs config) s
                              in if \<not> success providerResult then
                                   (let s = printError (''Failed: '' @ template (error providerResult)) s
                                    in (1, s))
                                 else
                                   (let s = printSuccess (''Providers configured '' @ SYMBOLS_arrow
                                              @ '' '' @ DIM @ template (configPath providerResult)
                                              @ RESET) s
                                    in runInstall_finish cs config isUpdate totalSteps step s)))
                     else runInstall_finish cs config isUpdate totalSteps step s)))"

subsection \<open>The entry point\<close>

definition install ::
  "'w collaborators \<Rightarrow> InstallArgs \<Rightarrow> 'w run_state \<Rightarrow> (exn + nat) \<times> 'w run_state" where
  "install cs args s =
     (if \<not> tui args then
        (let validation = validateNonTuiArgs args
         in if \<not> valid validation then
              (let s = printHeader False s;
                   s = printError ''Validation failed:'' s;
                   s = foldl (\<lambda>s err. console_log (''  '' @ SYMBOLS_bullet @ '' '' @ err) s) s
                         (errors validation);
                   s = console_log [] s;
                   s = printInfo (''Usage: bunx oh-my-opencode-slim install --no-tui ''
                         @ ''--antigravity=<yes|no> --openai=<yes|no> --cerebras=<yes|no>'') s;
                   s = console_log [] s
               in (Inr 1, s))
            else
              (let config = argsToConfig args;
                   (code, s) = runInstall cs args config s
               in (Inr code, s)))
      else
        (let (detected, s) = invoke DetectCurrentConfig Detected (detectCurrentConfig cs) s;
             s = printHeader (isInstalled detected) s;
             s = printStep 1 1 ''Checking OpenCode installation...'' s;
             (installed, s) = invoke IsOpenCodeInstalled Installed (isOpenCodeInstalled cs) s
         in if \<not> installed then
              (let s = printError ''OpenCode is not installed on this system.'' s;
                   s = printInfo ''Visit https://opencode.ai/docs for installation instructions'' s
               in (Inr 1, s))
            else
              (let (version, s) = invoke GetOpenCodeVersion Version (getOpenCodeVersion cs) s;
                   s = printSuccess (''OpenCode '' @ orEmpty version @ '' detected'') s;
                   s = console_log [] s;
                   (r, s) = runTuiMode cs detected s
               in case r of
                    Inl e \<Rightarrow> (Inl e, s)
                  | Inr config \<Rightarrow>
                      (case config of
                         None \<Rightarrow> (Inr 1, s)
                       | Some config \<Rightarrow>
                           (let (code, s) = runInstall cs args config s in (Inr code, s))))))"

subsection \<open>Reading a trace\<close>

text \<open>What a run added to the trace, from the state before and the state after.\<close>

definition emitted :: "'w run_state \<Rightarrow> 'w run_state \<Rightarrow> event list" where
  "emitted s s' = drop (length (trace s)) (trace s')"

text \<open>The state that a run from \<open>s\<close> reaches when it leaves the world \<open>w\<close> and adds \<open>evs\<close>.\<close>

definition advance :: "'w run_state \<Rightarrow> 'w \<Rightarrow> event list \<Rightarrow> 'w run_state" where
  "advance s w evs = s\<lparr>world := w, trace := trace s @ evs\<rparr>"

text \<open>The collaborators called, in the order of the calls.\<close>

fun calls :: "event list \<Rightarrow> collaborator list" where
  "calls [] = []"
| "calls (Invoked c r # evs) = c # calls evs"
| "calls (e # evs) = calls evs"

text \<open>The progress lines shown, as pairs of step number and step count.\<close>

fun steps_shown :: "event list \<Rightarrow> (nat \<times> nat) list" where
  "steps_shown [] = []"
| "steps_shown (PrintStep k t m # evs) = (k, t) # steps_shown evs"
| "steps_shown (e # evs) = steps_shown evs"

text \<open>The headers rendered: \<^term>\<open>True\<close> for the update framing.\<close>

fun headers :: "event list \<Rightarrow> bool list" where
  "headers [] = []"
| "headers (PrintHeader u # evs) = u # headers evs"
| "headers (e # evs) = headers evs"

text \<open>The reads of standard input, with their outcomes.\<close>

fun reads :: "event list \<Rightarrow> read_outcome list" where
  "reads [] = []"
| "reads (Read r # evs) = r # reads evs"
| "reads (e # evs) = reads evs"

text \<open>
  The preflight and detection calls and the reads of standard input, in the order in which
  they happened: \<^term>\<open>Some c\<close> for a call of \<open>c\<close>, \<^term>\<open>None\<close> for a read.
\<close>

fun preflight_and_reads :: "event list \<Rightarrow> collaborator option list" where
  "preflight_and_reads [] = []"
| "preflight_and_reads (Invoked c r # evs) =
     (if c \<in> set [DetectCurrentConfig, IsOpenCodeInstalled, GetOpenCodeVersion]
      then Some c # preflight_and_reads evs else preflight_and_reads evs)"
| "preflight_and_reads (Read r # evs) = None # preflight_and_reads evs"
| "preflight_and_reads (e # evs) = preflight_and_reads evs"

text \<open>
  The detections and the headers of a run, in their order: \<^term>\<open>Inl b\<close> for a call of
  \<^verbatim>\<open>detectCurrentConfig\<close> that returned \<^verbatim>\<open>isInstalled = b\<close>, \<^term>\<open>Inr u\<close> for a header
  rendered with the update framing \<open>u\<close>.
\<close>

fun detections_and_headers :: "event list \<Rightarrow> (bool + bool) list" where
  "detections_and_headers [] = []"
| "detections_and_headers (Invoked c (Detected d) # evs) =
     Inl (isInstalled d) # detections_and_headers evs"
| "detections_and_headers (PrintHeader u # evs) = Inr u # detections_and_headers evs"
| "detections_and_headers (e # evs) = detections_and_headers evs"

subsection \<open>A scripted host, for running the model on concrete inputs\<close>

text \<open>
  A host whose collaborators give fixed replies. Its world is the list of the outcomes
  that the coming reads of standard input will have; past the end of the list the
  stream is closed and a read returns no data.
\<close>

definition scripted_host ::
  "DetectedConfig \<Rightarrow> bool \<Rightarrow> string option \<Rightarrow> StepResult \<Rightarrow> StepResult \<Rightarrow> StepResult
     \<Rightarrow> StepResult \<Rightarrow> (read_outcome list) collaborators" where
  "scripted_host d i v p a pr l =
     \<lparr>detectCurrentConfig = (\<lambda>w. (d, w)),
      isOpenCodeInstalled = (\<lambda>w. (i, w)),
      getOpenCodeVersion = (\<lambda>w. (v, w)),
      addPluginToOpenCodeConfig = (\<lambda>w. (p, w)),
      addAuthPlugins = (\<lambda>config w. (a, w)),
      addProviderConfig = (\<lambda>config w. (pr, w)),
      writeLiteConfig = (\<lambda>config w. (l, w)),
      stdin_read = (\<lambda>w. case w of [] \<Rightarrow> (ReadValue None, []) | r # rs \<Rightarrow> (r, rs))\<rparr>"

definition step_ok :: "string \<Rightarrow> StepResult" where
  "step_ok path = \<lparr>success = True, error = None, configPath = Some path\<rparr>"

definition step_failed :: "string \<Rightarrow> StepResult" where
  "step_failed message = \<lparr>success = False, error = Some message, configPath = None\<rparr>"

definition fresh_host :: DetectedConfig where
  "fresh_host = \<lparr>hasAntigravity = False, hasOpenAI = False, hasCerebras = False,
                  isInstalled = False\<rparr>"

text \<open>
  Two hosts: one that is installed and whose steps all succeed, one that is not installed.
  An interactive invocation, and three lines typed at the questions: \<^verbatim>\<open>y\<close>, an empty
  line, and the end of the stream.
\<close>

definition ready_host :: "(read_outcome list) collaborators" where
  "ready_host = scripted_host fresh_host True (Some ''1.0'') (step_ok ''/p'') (step_ok ''/p'')
     (step_ok ''/p'') (step_ok ''/p'')"

definition absent_host :: "(read_outcome list) collaborators" where
  "absent_host = scripted_host fresh_host False None (step_ok ''/p'') (step_ok ''/p'')
     (step_ok ''/p'') (step_ok ''/p'')"

definition interactive :: InstallArgs where
  "interactive = \<lparr>tui = True, antigravity = None, openai = None, cerebras = None\<rparr>"

definition typed :: "read_outcome list" where
  "typed = [ReadValue (Some (units ''y'')), ReadValue (Some []), ReadValue None]"

definition initial :: "read_outcome list \<Rightarrow> (read_outcome list) run_state" where
  "initial pending = \<lparr>world = pending, held = 0, trace = []\<rparr>"

text \<open>
  The reading of the claim about answers, written from the specification and not from
  \<^verbatim>\<open>askYesNo\<close>: a line is blank when it holds white space only; it says a word when it
  is the word, each letter in either case, with nothing but white space before and after
  it. An input that is blank or missing gives the default, one that says \<^verbatim>\<open>y\<close> or
  \<^verbatim>\<open>yes\<close> gives yes, one that says \<^verbatim>\<open>n\<close> or \<^verbatim>\<open>no\<close> gives no, any other the default.
\<close>

definition blank :: "js_string \<Rightarrow> bool" where
  "blank line = list_all isWhiteSpace line"

definition padded :: "js_string \<Rightarrow> js_string \<Rightarrow> bool" where
  "padded word line =
     (\<exists>before after. line = before @ word @ after \<and> blank before \<and> blank after)"

definition in_any_case :: "string \<Rightarrow> js_string \<Rightarrow> bool" where
  "in_any_case word written =
     list_all2 (\<lambda>letter c. c = of_char letter \<or> c + 0x20 = of_char letter) word written"

definition says :: "string \<Rightarrow> js_string \<Rightarrow> bool" where
  "says word line = (\<exists>written. in_any_case word written \<and> padded written line)"

definition expected_answer :: "BooleanArg \<Rightarrow> js_string option \<Rightarrow> BooleanArg" where
  "expected_answer d input =
     (case input of
        None \<Rightarrow> d
      | Some line \<Rightarrow>
          if blank line then d
          else if says ''y'' line \<or> says ''yes'' line then ''yes''
          else if says ''n'' line \<or> says ''no'' line then ''no''
          else d)"

text \<open>
  The reading of the claim about validation, written from the specification: a flag
  offends when it is missing or holds a value other than yes and no, and it has one
  message of its own.
\<close>

definition offending :: "string option \<Rightarrow> bool" where
  "offending v = (v \<noteq> Some ''yes'' \<and> v \<noteq> Some ''no'')"

definition message_for :: "string \<Rightarrow> string option \<Rightarrow> string" where
  "message_for name v =
     (case v of
        None \<Rightarrow> ''--'' @ name @ '' is required (values: yes, no)''
      | Some x \<Rightarrow> ''Invalid --'' @ name @ '' value: '' @ x @ '' (expected: yes, no)'')"

definition flags :: "InstallArgs \<Rightarrow> (string \<times> string option) list" where
  "flags args =
     [(''antigravity'', antigravity args), (''openai'', openai args),
      (''cerebras'', cerebras args)]"

section \<open>Theorems\<close>

subsection \<open>Each function as an equation on explicit traces\<close>

lemma emit_simps [simp]:
  "trace (emit e s) = trace s @ [e]" "world (emit e s) = world s" "held (emit e s) = held s"
  by (simp_all add: emit_def)

lemmas print_defs = console_log_def stdout_write_def printHeader_def printStep_def
  printSuccess_def printError_def printInfo_def printWarning_def


lemma advance_simps [simp]:
  "world (advance s w evs) = w" "trace (advance s w evs) = trace s @ evs" "held (advance s w evs) = held s"
  "advance (advance s w evs) w' evs' = advance s w' (evs @ evs')"
  "emitted s (advance s w evs) = evs"
  by (simp_all add: advance_def emitted_def)

lemma runInstall_finish_eq:
  assumes "writeLiteConfig cs config w0 = (l, w)"
  shows "runInstall_finish cs config u t k (advance s w0 evs) =
     (if \<not> success l then
        (1, advance s w (evs @ [PrintStep k t ''Writing oh-my-opencode-slim configuration...'',
                     Invoked WriteLiteConfig (Step l),
                     PrintError (''Failed: '' @ template (error l))]))
      else if \<not> hasAntigravity config \<and> \<not> hasOpenAI config \<and> \<not> hasCerebras config then
        (1, advance s w (evs @ [PrintStep k t ''Writing oh-my-opencode-slim configuration...'',
                     Invoked WriteLiteConfig (Step l),
                     PrintSuccess (''Config written '' @ SYMBOLS_arrow @ '' '' @ DIM
                                   @ template (configPath l) @ RESET),
                     ConsoleLog [], ConsoleLog (formatConfigSummary config), ConsoleLog [],
                     PrintWarning ''No providers configured. At least one provider is required.'']))
      else
        (0, advance s w (evs @ [PrintStep k t ''Writing oh-my-opencode-slim configuration...'',
                     Invoked WriteLiteConfig (Step l),
                     PrintSuccess (''Config written '' @ SYMBOLS_arrow @ '' '' @ DIM
                                   @ template (configPath l) @ RESET),
                     ConsoleLog [], ConsoleLog (formatConfigSummary config), ConsoleLog [],
                     ConsoleLog (SYMBOLS_star @ '' '' @ BOLD @ GREEN
                            @ (if u then ''Configuration updated!'' else ''Installation complete!'')
                            @ RESET),
                     ConsoleLog [], ConsoleLog (BOLD @ ''Next steps:'' @ RESET), ConsoleLog [],
                     ConsoleLog ''  1. Authenticate with your providers:'',
                     ConsoleLog (''     '' @ BLUE @ ''$ opencode auth login'' @ RESET),
                     ConsoleLog [], ConsoleLog ''  2. Start OpenCode:'',
                     ConsoleLog (''     '' @ BLUE @ ''$ opencode'' @ RESET), ConsoleLog []])))"
  by (simp add: runInstall_finish_def Let_def print_defs invoke_def assms advance_def emit_def)

lemma runInstall_eq:
  assumes "detectCurrentConfig cs (world s) = (d, w1)"
    and "isOpenCodeInstalled cs w1 = (i, w2)"
    and "getOpenCodeVersion cs w2 = (v, w3)"
    and "addPluginToOpenCodeConfig cs w3 = (p, w4)"
    and "addAuthPlugins cs config w4 = (a, w5)"
    and "addProviderConfig cs config w5 = (pr, w6)"
  shows "runInstall cs args config s =
     (if \<not> i then
        (1, advance s w2 [Invoked DetectCurrentConfig (Detected d), PrintHeader (isInstalled d),
                      PrintStep 1 (if hasAntigravity config then 5 else 3) ''Checking OpenCode installation...'',
                      Invoked IsOpenCodeInstalled (Installed i),
                      PrintError ''OpenCode is not installed on this system.'',
                      PrintInfo ''Visit https://opencode.ai/docs for installation instructions''])
      else if \<not> success p then
        (1, advance s w4 [Invoked DetectCurrentConfig (Detected d), PrintHeader (isInstalled d),
                      PrintStep 1 (if hasAntigravity config then 5 else 3) ''Checking OpenCode installation...'',
                      Invoked IsOpenCodeInstalled (Installed i),
                      Invoked GetOpenCodeVersion (Version v),
                      PrintSuccess (''OpenCode '' @ orEmpty v @ '' detected''),
                      PrintStep 2 (if hasAntigravity config then 5 else 3) ''Adding oh-my-opencode-slim plugin...'',
                      Invoked AddPluginToOpenCodeConfig (Step p),
                      PrintError (''Failed: '' @ template (error p))])
      else if hasAntigravity config then
        (if \<not> success a then
           (1, advance s w5 [Invoked DetectCurrentConfig (Detected d), PrintHeader (isInstalled d),
                      PrintStep 1 5 ''Checking OpenCode installation...'',
                      Invoked IsOpenCodeInstalled (Installed i),
                      Invoked GetOpenCodeVersion (Version v),
                      PrintSuccess (''OpenCode '' @ orEmpty v @ '' detected''),
                      PrintStep 2 5 ''Adding oh-my-opencode-slim plugin...'',
                      Invoked AddPluginToOpenCodeConfig (Step p),
                      PrintSuccess (''Plugin added '' @ SYMBOLS_arrow @ '' '' @ DIM
                                         @ template (configPath p) @ RESET),
                      PrintStep 3 5 ''Adding auth plugins...'',
                      Invoked AddAuthPlugins (Step a),
                      PrintError (''Failed: '' @ template (error a))])
         else if \<not> success pr then
           (1, advance s w6 [Invoked DetectCurrentConfig (Detected d), PrintHeader (isInstalled d),
                      PrintStep 1 5 ''Checking OpenCode installation...'',
                      Invoked IsOpenCodeInstalled (Installed i),
                      Invoked GetOpenCodeVersion (Version v),
                      PrintSuccess (''OpenCode '' @ orEmpty v @ '' detected''),
                      PrintStep 2 5 ''Adding oh-my-opencode-slim plugin...'',
                      Invoked AddPluginToOpenCodeConfig (Step p),
                      PrintSuccess (''Plugin added '' @ SYMBOLS_arrow @ '' '' @ DIM
                                         @ template (configPath p) @ RESET),
                      PrintStep 3 5 ''Adding auth plugins...'',
                      Invoked AddAuthPlugins (Step a),
                      PrintSuccess (''Auth plugins configured '' @ SYMBOLS_arrow
                                        @ '' '' @ DIM @ template (configPath a) @ RESET),
                      PrintStep 4 5 ''Adding provider configurations...'',
                      Invoked AddProviderConfig (Step pr),
                      PrintError (''Failed: '' @ template (error pr))])
         else runInstall_finish cs config (isInstalled d) 5 5
           (advance s w6 [Invoked DetectCurrentConfig (Detected d), PrintHeader (isInstalled d),
                      PrintStep 1 5 ''Checking OpenCode installation...'',
                      Invoked IsOpenCodeInstalled (Installed i),
                      Invoked GetOpenCodeVersion (Version v),
                      PrintSuccess (''OpenCode '' @ orEmpty v @ '' detected''),
                      PrintStep 2 5 ''Adding oh-my-opencode-slim plugin...'',
                      Invoked AddPluginToOpenCodeConfig (Step p),
                      PrintSuccess (''Plugin added '' @ SYMBOLS_arrow @ '' '' @ DIM
                                         @ template (configPath p) @ RESET),
                      PrintStep 3 5 ''Adding auth plugins...'',
                      Invoked AddAuthPlugins (Step a),
                      PrintSuccess (''Auth plugins configured '' @ SYMBOLS_arrow
                                        @ '' '' @ DIM @ template (configPath a) @ RESET),
                      PrintStep 4 5 ''Adding provider configurations...'',
                      Invoked AddProviderConfig (Step pr),
                      PrintSuccess (''Providers configured '' @ SYMBOLS_arrow
                                              @ '' '' @ DIM @ template (configPath pr)
                                              @ RESET)]))
      else runInstall_finish cs config (isInstalled d) 3 3
           (advance s w4 [Invoked DetectCurrentConfig (Detected d), PrintHeader (isInstalled d),
                      PrintStep 1 3 ''Checking OpenCode installation...'',
                      Invoked IsOpenCodeInstalled (Installed i),
                      Invoked GetOpenCodeVersion (Version v),
                      PrintSuccess (''OpenCode '' @ orEmpty v @ '' detected''),
                      PrintStep 2 3 ''Adding oh-my-opencode-slim plugin...'',
                      Invoked AddPluginToOpenCodeConfig (Step p),
                      PrintSuccess (''Plugin added '' @ SYMBOLS_arrow @ '' '' @ DIM
                                         @ template (configPath p) @ RESET)]))"
proof (cases i)
  case False
  then show ?thesis
    by (simp add: runInstall_def Let_def print_defs invoke_def assms advance_def emit_def)
next
  case i: True
  show ?thesis
  proof (cases "success p")
    case False
    with i show ?thesis
      by (simp add: runInstall_def Let_def print_defs invoke_def assms advance_def emit_def)
  next
    case p: True
    show ?thesis
    proof (cases "hasAntigravity config")
      case False
      with i p show ?thesis
        by (simp add: runInstall_def Let_def print_defs invoke_def assms advance_def emit_def numeral_eq_Suc)
    next
      case g: True
      show ?thesis
      proof (cases "success a")
        case False
        with i p g show ?thesis
          by (simp add: runInstall_def Let_def print_defs invoke_def assms advance_def emit_def)
      next
        case a: True
        with i p g show ?thesis
          by (cases "success pr")
            (simp_all add: runInstall_def Let_def print_defs invoke_def assms advance_def emit_def
               numeral_eq_Suc)
      qed
    qed
  qed
qed


lemma upt_small:
  "[1..<Suc 1] = [1]" "[1..<Suc 2] = [1, 2]" "[1..<Suc 3] = [1, 2, 3]"
  "[1..<Suc 4] = [1, 2, 3, 4]" "[1..<Suc 5] = [1, 2, 3, 4, 5]"
  by code_simp+


lemma console_log_simps [simp]:
  "trace (console_log line s) = trace s @ [ConsoleLog line]"
  "world (console_log line s) = world s"
  "held (console_log line s) = held s"
  by (simp_all add: console_log_def)

lemma askYesNo_cases [case_names answered rejected]:
  obtains (answered) val ans s' where
      "askYesNo cs prompt dv s = (Inr ans, s')"
      "trace s' = trace s @ [StdoutWrite (BLUE @ prompt @ RESET @ '' ''
                     @ (if dv = ''yes'' then ''[Y/n]'' else ''[y/N]'') @ '': ''),
                   GetReader, Read (ReadValue val), ReleaseLock]"
      "held s' = held s"
      "stdin_read cs (world s) = (ReadValue val, world s')"
      "ans = (let answer = (case val of None \<Rightarrow> [] | Some text \<Rightarrow> toLowerCase (trim text))
               in if answer = [] \<or> answer = units newline then dv
                  else if answer = units ''y'' \<or> answer = units ''yes'' then ''yes''
                  else if answer = units ''n'' \<or> answer = units ''no'' then ''no''
                  else dv)"
  | (rejected) s' where
      "askYesNo cs prompt dv s = (Inl ReadRejected, s')"
      "trace s' = trace s @ [StdoutWrite (BLUE @ prompt @ RESET @ '' ''
                     @ (if dv = ''yes'' then ''[Y/n]'' else ''[y/N]'') @ '': ''),
                   GetReader, Read ReadThrows]"
      "held s' = Suc (held s)"
      "stdin_read cs (world s) = (ReadThrows, world s')"
proof -
  obtain r w where r: "stdin_read cs (world s) = (r, w)" by fastforce
  show thesis
  proof (cases r)
    case ReadThrows
    with r show thesis
      by (intro rejected [of "snd (askYesNo cs prompt dv s)"])
        (simp_all add: askYesNo_def Let_def print_defs getReader_def reader_read_def emit_def)
  next
    case (ReadValue val)
    with r show thesis
      by (intro answered [of _ "snd (askYesNo cs prompt dv s)" val, OF _ _ _ _ refl])
        (simp_all add: askYesNo_def Let_def print_defs getReader_def reader_read_def
          releaseLock_def emit_def)
  qed
qed

lemma runTuiMode_cases [case_names answered rejected]:
  obtains (answered) config s' evs where
      "runTuiMode cs d s = (Inr (Some config), s')" "trace s' = trace s @ evs"
      "held s' = held s" "calls evs = []" "headers evs = []" "steps_shown evs = []"
      "length (reads evs) = 3" "ReadThrows \<notin> set (reads evs)"
  | (rejected) s' evs where
      "runTuiMode cs d s = (Inl ReadRejected, s')" "trace s' = trace s @ evs"
      "held s' = Suc (held s)" "calls evs = []" "headers evs = []" "steps_shown evs = []"
      "ReadThrows \<in> set (reads evs)"
proof -
  obtain i1 i2 i3 where init: "detectedToInitialValues d = (i1, i2, i3)"
    by (cases "detectedToInitialValues d") auto
  let ?s1 = "console_log (BOLD @ ''Question 1/3:'' @ RESET) s"
  show thesis
  proof (cases rule: askYesNo_cases [where cs = cs and prompt = "''Do you have an Antigravity subscription?''" and dv = i1 and s = ?s1])
    case (rejected t1)
    note q1 = rejected(1) [simplified]
    show thesis
      by (rule that(2) [where s' = t1 and evs = "emitted s t1"])
        (simp_all add: runTuiMode_def init q1 rejected(2,3) Let_def emitted_def)
  next
    case a1: (answered val1 ans1 t1)
    note q1 = a1(1) [simplified]
    let ?s2 = "console_log (BOLD @ ''Question 2/3:'' @ RESET) (console_log [] t1)"
    show thesis
    proof (cases rule: askYesNo_cases [where cs = cs and prompt = "''Do you have access to OpenAI API?''" and dv = i2 and s = ?s2])
      case (rejected t2)
      note q2 = rejected(1) [simplified]
      show thesis
        by (rule that(2) [where s' = t2 and evs = "emitted s t2"])
          (simp_all add: runTuiMode_def init q1 q2 a1(2,3) rejected(2,3) Let_def emitted_def)
    next
      case a2: (answered val2 ans2 t2)
      note q2 = a2(1) [simplified]
      let ?s3 = "console_log (BOLD @ ''Question 3/3:'' @ RESET) (console_log [] t2)"
      show thesis
      proof (cases rule: askYesNo_cases [where cs = cs and prompt = "''Do you have access to Cerebras API?''" and dv = i3 and s = ?s3])
        case (rejected t3)
        note q3 = rejected(1) [simplified]
        show thesis
          by (rule that(2) [where s' = t3 and evs = "emitted s t3"])
            (simp_all add: runTuiMode_def init q1 q2 q3 a1(2,3) a2(2,3) rejected(2,3)
              Let_def emitted_def)
      next
        case a3: (answered val3 ans3 t3)
        note q3 = a3(1) [simplified]
        show thesis
          by (rule that(1) [where s' = "console_log [] t3"
              and evs = "emitted s (console_log [] t3)"
              and config = "\<lparr>hasAntigravity = (ans1 = ''yes''), hasOpenAI = (ans2 = ''yes''),
                              hasCerebras = (ans3 = ''yes'')\<rparr>"])
            (simp_all add: runTuiMode_def init q1 q2 q3 a1(2,3) a2(2,3) a3(2,3)
              Let_def emitted_def)
      qed
    qed
  qed
qed

lemma install_tui_eq:
  assumes "tui args"
    and "detectCurrentConfig cs (world s) = (d, w1)"
    and "isOpenCodeInstalled cs w1 = (i, w2)"
    and "getOpenCodeVersion cs w2 = (v, w3)"
  shows "install cs args s =
     (if \<not> i then
        (Inr 1, advance s w2 [Invoked DetectCurrentConfig (Detected d), PrintHeader (isInstalled d),
                      PrintStep 1 1 ''Checking OpenCode installation...'',
                      Invoked IsOpenCodeInstalled (Installed i),
                      PrintError ''OpenCode is not installed on this system.'',
                      PrintInfo ''Visit https://opencode.ai/docs for installation instructions''])
      else
        (case runTuiMode cs d
                (advance s w3 [Invoked DetectCurrentConfig (Detected d), PrintHeader (isInstalled d),
                      PrintStep 1 1 ''Checking OpenCode installation...'',
                      Invoked IsOpenCodeInstalled (Installed i),
                      Invoked GetOpenCodeVersion (Version v),
                      PrintSuccess (''OpenCode '' @ orEmpty v @ '' detected''),
                      ConsoleLog []]) of
           (Inl e, s') \<Rightarrow> (Inl e, s')
         | (Inr None, s') \<Rightarrow> (Inr 1, s')
         | (Inr (Some config), s') \<Rightarrow>
             (Inr (fst (runInstall cs args config s')), snd (runInstall cs args config s'))))"
proof (cases i)
  case False
  with assms show ?thesis
    by (simp add: install_def Let_def print_defs invoke_def advance_def emit_def)
next
  case True
  with assms show ?thesis
    by (simp add: install_def Let_def print_defs invoke_def advance_def emit_def split_def
        split: sum.splits option.splits)
qed

lemma install_valid_eq:
  assumes "\<not> tui args" and "valid (validateNonTuiArgs args)"
  shows "install cs args s =
     (Inr (fst (runInstall cs args (argsToConfig args) s)),
      snd (runInstall cs args (argsToConfig args) s))"
  using assms by (simp add: install_def Let_def split_def)

lemma foldl_console_log:
  "foldl (\<lambda>s err. console_log (f err) s) (advance s w evs) errs =
     advance s w (evs @ map (\<lambda>err. ConsoleLog (f err)) errs)"
  by (induction errs arbitrary: evs) (simp_all add: console_log_def emit_def advance_def)

lemma install_invalid_eq:
  assumes "\<not> tui args" and "\<not> valid (validateNonTuiArgs args)"
  shows "install cs args s =
     (Inr 1, advance s (world s)
        ([PrintHeader False, PrintError ''Validation failed:'']
         @ map (\<lambda>err. ConsoleLog (''  '' @ SYMBOLS_bullet @ '' '' @ err))
             (errors (validateNonTuiArgs args))
         @ [ConsoleLog [],
            PrintInfo (''Usage: bunx oh-my-opencode-slim install --no-tui ''
                         @ ''--antigravity=<yes|no> --openai=<yes|no> --cerebras=<yes|no>''),
            ConsoleLog []]))"
proof -
  have start: "printError ''Validation failed:'' (printHeader False s) =
      advance s (world s) [PrintHeader False, PrintError ''Validation failed:'']"
    by (simp add: print_defs emit_def advance_def)
  show ?thesis
    using assms
    by (simp add: install_def Let_def start foldl_console_log)
      (simp add: print_defs emit_def advance_def)
qed


lemma install_tui_cases [consumes 1, case_names not_installed rejected answered]:
  fixes cs :: "'w collaborators"
  assumes "tui args"
  obtains (not_installed) d w1 w2 where
      "detectCurrentConfig cs (world s) = (d, w1)" "isOpenCodeInstalled cs w1 = (False, w2)"
      "install cs args s =
         (Inr 1, advance s w2 [Invoked DetectCurrentConfig (Detected d), PrintHeader (isInstalled d),
                      PrintStep 1 1 ''Checking OpenCode installation...'',
                      Invoked IsOpenCodeInstalled (Installed False),
                      PrintError ''OpenCode is not installed on this system.'',
                      PrintInfo ''Visit https://opencode.ai/docs for installation instructions''])"
  | (rejected) d w1 w2 v s' q where
      "detectCurrentConfig cs (world s) = (d, w1)" "isOpenCodeInstalled cs w1 = (True, w2)"
      "install cs args s = (Inl ReadRejected, s')"
      "trace s' = trace s @
         [Invoked DetectCurrentConfig (Detected d), PrintHeader (isInstalled d),
          PrintStep 1 1 ''Checking OpenCode installation...'',
          Invoked IsOpenCodeInstalled (Installed True),
          Invoked GetOpenCodeVersion (Version v),
          PrintSuccess (''OpenCode '' @ orEmpty v @ '' detected''),
          ConsoleLog []] @ q"
      "calls q = []" "headers q = []" "ReadThrows \<in> set (reads q)" "steps_shown q = []"
  | (answered) d w1 w2 v config s' q where
      "detectCurrentConfig cs (world s) = (d, w1)" "isOpenCodeInstalled cs w1 = (True, w2)"
      "install cs args s =
         (Inr (fst (runInstall cs args config s')), snd (runInstall cs args config s'))"
      "trace s' = trace s @
         [Invoked DetectCurrentConfig (Detected d), PrintHeader (isInstalled d),
          PrintStep 1 1 ''Checking OpenCode installation...'',
          Invoked IsOpenCodeInstalled (Installed True),
          Invoked GetOpenCodeVersion (Version v),
          PrintSuccess (''OpenCode '' @ orEmpty v @ '' detected''),
          ConsoleLog []] @ q"
      "calls q = []" "headers q = []" "length (reads q) = 3" "ReadThrows \<notin> set (reads q)"
      "steps_shown q = []"
proof -
  obtain d w1 where d: "detectCurrentConfig cs (world s) = (d, w1)" by fastforce
  obtain i w2 where i: "isOpenCodeInstalled cs w1 = (i, w2)" by fastforce
  obtain v w3 where v: "getOpenCodeVersion cs w2 = (v, w3)" by fastforce
  define s3 where "s3 = advance s w3 [Invoked DetectCurrentConfig (Detected d), PrintHeader (isInstalled d),
                      PrintStep 1 1 ''Checking OpenCode installation...'',
                      Invoked IsOpenCodeInstalled (Installed i),
                      Invoked GetOpenCodeVersion (Version v),
                      PrintSuccess (''OpenCode '' @ orEmpty v @ '' detected''),
                      ConsoleLog []]"
  note eq = install_tui_eq [OF assms d i v, folded s3_def]
  show thesis
  proof (cases i)
    case False
    with d i eq show thesis by (intro not_installed [of d w1 w2]) simp_all
  next
    case True
    show thesis
    proof (cases rule: runTuiMode_cases [where cs = cs and d = d and s = s3])
      case (answered config s' evs)
      with True d i eq show thesis
        by (intro that(3) [of d w1 w2 config s' v evs]) (simp_all add: s3_def)
    next
      case (rejected s' evs)
      with True d i eq show thesis
        by (intro that(2) [of d w1 w2 s' v evs]) (simp_all add: s3_def)
    qed
  qed
qed


lemma detections_and_headers_append [simp]:
  "detections_and_headers (xs @ ys) = detections_and_headers xs @ detections_and_headers ys"
  by (induction xs rule: detections_and_headers.induct) simp_all

lemma detections_and_headers_map_ConsoleLog [simp]:
  "detections_and_headers (map (\<lambda>x. ConsoleLog (f x)) xs) = []"
  by (induction xs) simp_all

lemma detections_and_headers_quiet:
  "calls evs = [] \<Longrightarrow> headers evs = [] \<Longrightarrow> detections_and_headers evs = []"
  by (induction evs rule: detections_and_headers.induct) simp_all

lemma three_reads: "length (xs :: read_outcome list) = 3 \<Longrightarrow> map (\<lambda>r. None) xs = [None, None, None]"
  by (cases xs; cases "tl xs"; cases "tl (tl xs)") auto


lemma emitted_trans:
  "trace s1 = trace s @ xs \<Longrightarrow> trace s2 = trace s1 @ ys \<Longrightarrow> emitted s s2 = xs @ ys"
  by (simp add: emitted_def)


lemma scripted_host_simps:
  "detectCurrentConfig (scripted_host d i v p a pr l) w = (d, w)"
  "isOpenCodeInstalled (scripted_host d i v p a pr l) w = (i, w)"
  "getOpenCodeVersion (scripted_host d i v p a pr l) w = (v, w)"
  "addPluginToOpenCodeConfig (scripted_host d i v p a pr l) w = (p, w)"
  "addAuthPlugins (scripted_host d i v p a pr l) config w = (a, w)"
  "addProviderConfig (scripted_host d i v p a pr l) config w = (pr, w)"
  "writeLiteConfig (scripted_host d i v p a pr l) config w = (l, w)"
  by (simp_all add: scripted_host_def)

lemmas runInstall_scripted =
  runInstall_eq [OF scripted_host_simps(1) scripted_host_simps(2) scripted_host_simps(3)
    scripted_host_simps(4) scripted_host_simps(5) scripted_host_simps(6)]

lemmas runInstall_finish_scripted = runInstall_finish_eq [OF scripted_host_simps(7)]

lemma calls_append [simp]: "calls (xs @ ys) = calls xs @ calls ys"
  by (induction xs rule: calls.induct) simp_all

lemma steps_shown_append [simp]: "steps_shown (xs @ ys) = steps_shown xs @ steps_shown ys"
  by (induction xs rule: steps_shown.induct) simp_all

lemma steps_shown_map_ConsoleLog [simp]: "steps_shown (map (\<lambda>x. ConsoleLog (f x)) xs) = []"
  by (induction xs) simp_all

lemma headers_append [simp]: "headers (xs @ ys) = headers xs @ headers ys"
  by (induction xs rule: headers.induct) simp_all

lemma reads_append [simp]: "reads (xs @ ys) = reads xs @ reads ys"
  by (induction xs rule: reads.induct) simp_all

lemma preflight_and_reads_append [simp]:
  "preflight_and_reads (xs @ ys) = preflight_and_reads xs @ preflight_and_reads ys"
  by (induction xs rule: preflight_and_reads.induct) simp_all

lemma calls_empty: "calls evs = [] \<Longrightarrow> Invoked c r \<notin> set evs"
  by (induction evs rule: calls.induct) auto

lemma calls_map_ConsoleLog [simp]: "calls (map (\<lambda>x. ConsoleLog (f x)) xs) = []"
  by (induction xs) simp_all

lemma headers_map_ConsoleLog [simp]: "headers (map (\<lambda>x. ConsoleLog (f x)) xs) = []"
  by (induction xs) simp_all

lemma reads_map_ConsoleLog [simp]: "reads (map (\<lambda>x. ConsoleLog (f x)) xs) = []"
  by (induction xs) simp_all

lemma preflight_and_reads_no_calls:
  "calls evs = [] \<Longrightarrow> preflight_and_reads evs = map (\<lambda>r. None) (reads evs)"
  by (induction evs rule: preflight_and_reads.induct) simp_all

lemma emitted_append: "trace s' = trace s @ evs \<Longrightarrow> emitted s s' = evs"
  by (simp add: emitted_def)

lemma runInstall_observed:
  fixes cs :: "'w collaborators" and args config s
  defines "r \<equiv> runInstall cs args config s"
  defines "evs \<equiv> emitted s (snd (runInstall cs args config s))"
  defines "d \<equiv> fst (detectCurrentConfig cs (world s))"
  defines "i \<equiv> fst (isOpenCodeInstalled cs (snd (detectCurrentConfig cs (world s))))"
  shows "trace (snd r) = trace s @ evs"
    and "held (snd r) = held s"
    and "headers evs = [isInstalled d]"
    and "detections_and_headers evs = [Inl (isInstalled d), Inr (isInstalled d)]"
    and "take 2 evs = [Invoked DetectCurrentConfig (Detected d), PrintHeader (isInstalled d)]"
    and "reads evs = []"
    and "preflight_and_reads evs =
           (if i then [Some DetectCurrentConfig, Some IsOpenCodeInstalled, Some GetOpenCodeVersion]
            else [Some DetectCurrentConfig, Some IsOpenCodeInstalled])"
    and "(Invoked IsOpenCodeInstalled (Installed False) \<in> set evs) = (\<not> i)"
    and "\<not> i \<Longrightarrow> fst r = 1"
    and "\<not> i \<Longrightarrow> calls evs = [DetectCurrentConfig, IsOpenCodeInstalled]"
proof -
  obtain d' w1 where d: "detectCurrentConfig cs (world s) = (d', w1)" by fastforce
  obtain i' w2 where i: "isOpenCodeInstalled cs w1 = (i', w2)" by fastforce
  obtain v w3 where v: "getOpenCodeVersion cs w2 = (v, w3)" by fastforce
  obtain p w4 where p: "addPluginToOpenCodeConfig cs w3 = (p, w4)" by fastforce
  obtain a w5 where a: "addAuthPlugins cs config w4 = (a, w5)" by fastforce
  obtain pr w6 where pr: "addProviderConfig cs config w5 = (pr, w6)" by fastforce
  obtain l w7 where l: "writeLiteConfig cs config w6 = (l, w7)" by fastforce
  obtain l' w7' where l': "writeLiteConfig cs config w4 = (l', w7')" by fastforce
  note eq = runInstall_eq [OF d i v p a pr]
  note defs = r_def evs_def d_def i_def d i
  consider (not_installed) "\<not> i'"
    | (plugin_failed) "i'" "\<not> success p"
    | (auth_failed) "i'" "success p" "hasAntigravity config" "\<not> success a"
    | (provider_failed) "i'" "success p" "hasAntigravity config" "success a" "\<not> success pr"
    | (finish_5) "i'" "success p" "hasAntigravity config" "success a" "success pr"
    | (finish_3) "i'" "success p" "\<not> hasAntigravity config"
    by blast
  then have "trace (snd r) = trace s @ evs \<and> held (snd r) = held s
    \<and> headers evs = [isInstalled d]
    \<and> detections_and_headers evs = [Inl (isInstalled d), Inr (isInstalled d)]
    \<and> take 2 evs = [Invoked DetectCurrentConfig (Detected d), PrintHeader (isInstalled d)]
    \<and> reads evs = []
    \<and> preflight_and_reads evs =
           (if i then [Some DetectCurrentConfig, Some IsOpenCodeInstalled, Some GetOpenCodeVersion]
            else [Some DetectCurrentConfig, Some IsOpenCodeInstalled])
    \<and> (Invoked IsOpenCodeInstalled (Installed False) \<in> set evs) = (\<not> i)
    \<and> (i \<or> fst r = 1 \<and> calls evs = [DetectCurrentConfig, IsOpenCodeInstalled])"
  proof cases
    case not_installed
    then show ?thesis by (simp add: defs eq)
  next
    case plugin_failed
    then show ?thesis by (simp add: defs eq)
  next
    case auth_failed
    then show ?thesis by (simp add: defs eq)
  next
    case provider_failed
    then show ?thesis by (simp add: defs eq)
  next
    case finish_5
    then show ?thesis by (simp add: defs eq runInstall_finish_eq [OF l])
  next
    case finish_3
    then show ?thesis by (simp add: defs eq runInstall_finish_eq [OF l'])
  qed
  then show "trace (snd r) = trace s @ evs"
    and "held (snd r) = held s"
    and "headers evs = [isInstalled d]"
    and "detections_and_headers evs = [Inl (isInstalled d), Inr (isInstalled d)]"
    and "take 2 evs = [Invoked DetectCurrentConfig (Detected d), PrintHeader (isInstalled d)]"
    and "reads evs = []"
    and "preflight_and_reads evs =
           (if i then [Some DetectCurrentConfig, Some IsOpenCodeInstalled, Some GetOpenCodeVersion]
            else [Some DetectCurrentConfig, Some IsOpenCodeInstalled])"
    and "(Invoked IsOpenCodeInstalled (Installed False) \<in> set evs) = (\<not> i)"
    and "\<not> i \<Longrightarrow> fst r = 1"
    and "\<not> i \<Longrightarrow> calls evs = [DetectCurrentConfig, IsOpenCodeInstalled]"
    by blast+
qed


lemma dropWhile_white_empty: "(dropWhile isWhiteSpace line = []) = blank line"
  by (simp add: dropWhile_eq_Nil_conv blank_def list_all_iff)

lemma trim_empty: "(trim line = []) = blank line"
proof
  assume "trim line = []"
  then have all: "\<forall>c \<in> set (dropWhile isWhiteSpace line). isWhiteSpace c"
    by (simp add: trim_def dropWhile_eq_Nil_conv)
  have "dropWhile isWhiteSpace line = []"
  proof (rule ccontr)
    assume ne: "dropWhile isWhiteSpace line \<noteq> []"
    then have "\<not> isWhiteSpace (hd (dropWhile isWhiteSpace line))" by (rule hd_dropWhile)
    moreover from ne have "hd (dropWhile isWhiteSpace line) \<in> set (dropWhile isWhiteSpace line)"
      by (rule hd_in_set)
    ultimately show False using all by blast
  qed
  then show "blank line" by (simp only: dropWhile_white_empty)
next
  assume "blank line"
  with dropWhile_white_empty [of line] have e: "dropWhile isWhiteSpace line = []" by blast
  show "trim line = []" unfolding trim_def e by simp
qed

lemma padded_trim: "padded (trim line) line"
proof -
  let ?rest = "dropWhile isWhiteSpace line"
  let ?tail = "takeWhile isWhiteSpace (rev ?rest)"
  have "rev (?tail @ dropWhile isWhiteSpace (rev ?rest)) = ?rest"
    by (simp only: takeWhile_dropWhile_id rev_rev_ident)
  then have "trim line @ rev ?tail = ?rest"
    by (simp only: rev_append trim_def)
  then have "line = takeWhile isWhiteSpace line @ trim line @ rev ?tail"
    by (simp only: takeWhile_dropWhile_id)
  moreover have "blank (takeWhile isWhiteSpace line)"
    by (auto simp add: blank_def list_all_iff dest: set_takeWhileD)
  moreover have "blank (rev ?tail)"
    by (auto simp add: blank_def list_all_iff dest: set_takeWhileD)
  ultimately show ?thesis
    unfolding padded_def by blast
qed

lemma trim_padded:
  assumes "padded word line" and "word \<noteq> []"
    and "\<not> isWhiteSpace (hd word)" and "\<not> isWhiteSpace (last word)"
  shows "trim line = word"
proof -
  from assms(1) obtain before after
    where line: "line = before @ word @ after" and b: "blank before" and a: "blank after"
    unfolding padded_def by blast
  from assms(2) obtain x xs where word: "word = x # xs" by (cases word) auto
  with assms(3) have x: "\<not> isWhiteSpace x" by simp
  from b have "dropWhile isWhiteSpace (before @ word @ after) = word @ after"
    using x by (simp add: word blank_def list_all_iff dropWhile_append)
  moreover from assms(2) obtain y ys where rword: "rev word = y # ys" by (cases "rev word") auto
  with assms(2,4) have y: "\<not> isWhiteSpace y" by (metis hd_rev list.sel(1))
  from a have "dropWhile isWhiteSpace (rev after @ rev word) = rev word"
    using y by (simp add: rword blank_def list_all_iff dropWhile_append)
  ultimately show ?thesis by (simp add: trim_def line)
qed

lemma toLowerCase_unit_letter:
  "97 \<le> l \<Longrightarrow> l \<le> 122 \<Longrightarrow> (toLowerCase_unit c = l) = (c = l \<or> c + 0x20 = l)"
  by (auto simp add: toLowerCase_unit_def)

lemma toLowerCase_word:
  "list_all (\<lambda>letter. 97 \<le> (of_char letter :: nat) \<and> (of_char letter :: nat) \<le> 122) word \<Longrightarrow>
   (toLowerCase written = units word) = in_any_case word written"
proof (induction word arbitrary: written)
  case Nil
  then show ?case by (simp add: toLowerCase_def units_def in_any_case_def)
next
  case (Cons letter word)
  then show ?case
    by (cases written)
      (auto simp add: toLowerCase_def units_def in_any_case_def toLowerCase_unit_letter)
qed

lemma letters_in_range:
  "in_any_case word written \<Longrightarrow>
   list_all (\<lambda>letter. 97 \<le> (of_char letter :: nat) \<and> (of_char letter :: nat) \<le> 122) word \<Longrightarrow>
   list_all (\<lambda>c. 65 \<le> c \<and> c \<le> 122) written"
proof (induction word arbitrary: written)
  case Nil
  then show ?case by (simp add: in_any_case_def)
next
  case (Cons letter word)
  from Cons.prems(1) obtain c rest where written: "written = c # rest"
    by (cases written) (auto simp add: in_any_case_def)
  with Cons.prems have c: "c = of_char letter \<or> c + 0x20 = of_char letter"
    and rest: "in_any_case word rest"
    and range: "97 \<le> (of_char letter :: nat)" "(of_char letter :: nat) \<le> 122"
    and others: "list_all (\<lambda>letter. 97 \<le> (of_char letter :: nat) \<and> (of_char letter :: nat) \<le> 122) word"
    by (simp_all add: in_any_case_def)
  from c range have "65 \<le> c \<and> c \<le> 122" by arith
  with Cons.IH [OF rest others] written show ?case by simp
qed

lemma letters_not_white:
  assumes "in_any_case word written" and "word \<noteq> []"
    and "list_all (\<lambda>letter. 97 \<le> (of_char letter :: nat) \<and> (of_char letter :: nat) \<le> 122) word"
  shows "written \<noteq> []" and "\<not> isWhiteSpace (hd written)" and "\<not> isWhiteSpace (last written)"
proof -
  from assms(1,2) show ne: "written \<noteq> []"
    by (auto simp add: in_any_case_def)
  from letters_in_range [OF assms(1,3)] have all: "\<forall>c \<in> set written. 65 \<le> c \<and> c \<le> 122"
    by (simp add: list_all_iff)
  have white: "\<And>c. 65 \<le> c \<Longrightarrow> c \<le> 122 \<Longrightarrow> \<not> isWhiteSpace c"
    by (auto simp add: isWhiteSpace_def)
  from ne have "hd written \<in> set written" "last written \<in> set written" by simp_all
  with all white show "\<not> isWhiteSpace (hd written)" and "\<not> isWhiteSpace (last written)"
    by blast+
qed


lemma says_iff:
  assumes "word \<noteq> []"
    and "list_all (\<lambda>letter. 97 \<le> (of_char letter :: nat) \<and> (of_char letter :: nat) \<le> 122) word"
  shows "says word line = (toLowerCase (trim line) = units word)"
proof
  assume "says word line"
  then obtain written where t: "in_any_case word written" and p: "padded written line"
    unfolding says_def by blast
  from letters_not_white [OF t assms] p have "trim line = written"
    by (intro trim_padded)
  with t show "toLowerCase (trim line) = units word"
    by (simp add: toLowerCase_word [OF assms(2)])
next
  assume "toLowerCase (trim line) = units word"
  then have "in_any_case word (trim line)"
    by (simp add: toLowerCase_word [OF assms(2)])
  with padded_trim [of line] show "says word line"
    unfolding says_def by blast
qed

lemma says_words:
  "says ''y'' line = (toLowerCase (trim line) = units ''y'')"
  "says ''yes'' line = (toLowerCase (trim line) = units ''yes'')"
  "says ''n'' line = (toLowerCase (trim line) = units ''n'')"
  "says ''no'' line = (toLowerCase (trim line) = units ''no'')"
  by (rule says_iff; simp)+

lemma toLowerCase_empty: "(toLowerCase text = []) = (text = [])"
  by (simp add: toLowerCase_def)

lemma expected_answer_eq:
  "expected_answer d input =
     (let answer = (case input of None \<Rightarrow> [] | Some text \<Rightarrow> toLowerCase (trim text))
      in if answer = [] \<or> answer = units newline then d
         else if answer = units ''y'' \<or> answer = units ''yes'' then ''yes''
         else if answer = units ''n'' \<or> answer = units ''no'' then ''no''
         else d)"
proof (cases input)
  case None
  then show ?thesis by (simp add: expected_answer_def)
next
  case (Some line)
  have distinct: "units newline \<noteq> units ''y''" "units newline \<noteq> units ''yes''"
    "units newline \<noteq> units ''n''" "units newline \<noteq> units ''no''"
    by (simp_all add: units_def newline_def)
  show ?thesis
    by (auto simp add: Some expected_answer_def says_words toLowerCase_empty trim_empty
        Let_def distinct distinct [symmetric])
qed



lemma stdin_read_scripted:
  "stdin_read (scripted_host d i v p a pr l) (r # rs) = (r, rs)"
  "stdin_read (scripted_host d i v p a pr l) [] = (ReadValue None, [])"
  by (simp_all add: scripted_host_def)


lemma typed_answers:
  "toLowerCase (trim (units ''y'')) = units ''y''" "toLowerCase (trim []) = []"
  by (simp_all add: units_def trim_def toLowerCase_def toLowerCase_unit_def isWhiteSpace_def)

lemma interactive_run:
  "fst (install ready_host interactive (initial typed)) = Inr 0"
  "reads (emitted (initial typed) (snd (install ready_host interactive (initial typed)))) = typed"
  "calls (emitted (initial typed) (snd (install ready_host interactive (initial typed)))) =
     [DetectCurrentConfig, IsOpenCodeInstalled, GetOpenCodeVersion,
      DetectCurrentConfig, IsOpenCodeInstalled, GetOpenCodeVersion,
      AddPluginToOpenCodeConfig, AddAuthPlugins, AddProviderConfig, WriteLiteConfig]"
  "steps_shown (emitted (initial typed) (snd (install ready_host interactive (initial typed)))) =
     [(1, 1), (1, 5), (2, 5), (3, 5), (4, 5), (5, 5)]"
  unfolding ready_host_def interactive_def typed_def
  apply (simp_all add: install_tui_eq [OF _ scripted_host_simps(1) scripted_host_simps(2)
          scripted_host_simps(3)])
  apply (simp_all add: runTuiMode_def askYesNo_def Let_def print_defs getReader_def
        releaseLock_def reader_read_def stdin_read_scripted initial_def
        detectedToInitialValues_def fresh_host_def emit_def advance_def typed_answers)
  apply (simp_all add: units_def newline_def)
  apply (simp_all add: runInstall_scripted runInstall_finish_scripted step_ok_def emitted_def)
  done

subsection \<open>The claims\<close>

text \<open>
  C5. Validation collects every violation: it fails exactly when at least one of the
  three flags is missing or holds a value outside yes and no, and the error list holds
  exactly one message for each offending flag (its own message, in the order
  antigravity, openai, cerebras) and nothing else.
\<close>

theorem validateNonTuiArgs_one_error_per_offending_field:
  "valid (validateNonTuiArgs args) =
     (\<not> (offending (antigravity args) \<or> offending (openai args) \<or> offending (cerebras args)))
   \<and> errors (validateNonTuiArgs args) =
       map (\<lambda>(name, v). message_for name v) (filter (\<lambda>(name, v). offending v) (flags args))
   \<and> length (errors (validateNonTuiArgs args)) =
       length (filter offending [antigravity args, openai args, cerebras args])"
  by (cases "antigravity args"; cases "openai args"; cases "cerebras args")
     (auto simp: validateNonTuiArgs_def flags_def offending_def message_for_def
        yes_no_includes_def)


lemma runInstall_steps:
  fixes cs :: "'w collaborators"
  shows
  "(let shown = steps_shown (emitted s (snd (runInstall cs args config s)));
        totalSteps = (if hasAntigravity config then 5 else 3)
    in shown \<noteq> [] \<and> length shown \<le> totalSteps \<and>
       shown = map (\<lambda>k. (k, totalSteps)) [1..<Suc (length shown)])"
proof -
  obtain d w1 where d: "detectCurrentConfig cs (world s) = (d, w1)" by fastforce
  obtain i w2 where i: "isOpenCodeInstalled cs w1 = (i, w2)" by fastforce
  obtain v w3 where v: "getOpenCodeVersion cs w2 = (v, w3)" by fastforce
  obtain p w4 where p: "addPluginToOpenCodeConfig cs w3 = (p, w4)" by fastforce
  obtain a w5 where a: "addAuthPlugins cs config w4 = (a, w5)" by fastforce
  obtain pr w6 where pr: "addProviderConfig cs config w5 = (pr, w6)" by fastforce
  obtain l w7 where l: "writeLiteConfig cs config w6 = (l, w7)" by fastforce
  obtain l' w7' where l': "writeLiteConfig cs config w4 = (l', w7')" by fastforce
  note eq = runInstall_eq [OF d i v p a pr]
  consider (not_installed) "\<not> i"
    | (plugin_failed) "i" "\<not> success p"
    | (auth_failed) "i" "success p" "hasAntigravity config" "\<not> success a"
    | (provider_failed) "i" "success p" "hasAntigravity config" "success a" "\<not> success pr"
    | (finish_5) "i" "success p" "hasAntigravity config" "success a" "success pr"
    | (finish_3) "i" "success p" "\<not> hasAntigravity config"
    by blast
  then show ?thesis
  proof cases
    case not_installed
    then show ?thesis by (simp add: eq upt_small)
  next
    case plugin_failed
    then show ?thesis by (simp add: eq upt_small)
  next
    case auth_failed
    then show ?thesis by (simp add: eq upt_small)
  next
    case provider_failed
    then show ?thesis by (simp add: eq upt_small)
  next
    case finish_5
    then show ?thesis by (simp add: eq runInstall_finish_eq [OF l] upt_small)
  next
    case finish_3
    then show ?thesis by (simp add: eq runInstall_finish_eq [OF l'] upt_small)
  qed
qed

text \<open>
  C4, as amended. Within \<^verbatim>\<open>runInstall\<close> the step count shown is 5 when
  \<^verbatim>\<open>hasAntigravity\<close> is set and 3 otherwise, and it is the same in every progress line:
  the lines are numbered 1, 2, ... without a gap, there is at least one and at most as
  many as the step count, and each carries that one count. A run of \<^verbatim>\<open>install\<close>
  without \<^verbatim>\<open>tui\<close> shows these lines and no other (none at all when the arguments are
  rejected). An interactive run first shows a progress line of its own, with the step
  count 1, before the configuration is resolved; the lines of \<^verbatim>\<open>runInstall\<close> follow it
  when the host is installed and no read rejects.
\<close>

theorem step_count_shown_per_pass:
  fixes cs :: "'w collaborators"
  shows
  "(let shown = steps_shown (emitted s (snd (runInstall cs args config s)));
        totalSteps = (if hasAntigravity config then 5 else 3)
    in shown \<noteq> [] \<and> length shown \<le> totalSteps \<and>
       shown = map (\<lambda>k. (k, totalSteps)) [1..<Suc (length shown)])
   \<and> (if tui args
       then if fst (isOpenCodeInstalled cs (snd (detectCurrentConfig cs (world s))))
               \<and> ReadThrows \<notin> set (reads (emitted s (snd (install cs args s))))
            then \<exists>resolved s'. steps_shown (emitted s (snd (install cs args s))) =
                   (1, 1) # steps_shown (emitted s' (snd (runInstall cs args resolved s')))
            else steps_shown (emitted s (snd (install cs args s))) = [(1, 1)]
       else if valid (validateNonTuiArgs args)
            then steps_shown (emitted s (snd (install cs args s))) =
                   steps_shown (emitted s (snd (runInstall cs args (argsToConfig args) s)))
            else steps_shown (emitted s (snd (install cs args s))) = [])"
proof (intro conjI)
  show "let shown = steps_shown (emitted s (snd (runInstall cs args config s)));
        totalSteps = (if hasAntigravity config then 5 else 3)
    in shown \<noteq> [] \<and> length shown \<le> totalSteps \<and>
       shown = map (\<lambda>k. (k, totalSteps)) [1..<Suc (length shown)]"
    by (rule runInstall_steps)
  show "if tui args
       then if fst (isOpenCodeInstalled cs (snd (detectCurrentConfig cs (world s))))
               \<and> ReadThrows \<notin> set (reads (emitted s (snd (install cs args s))))
            then \<exists>resolved s'. steps_shown (emitted s (snd (install cs args s))) =
                   (1, 1) # steps_shown (emitted s' (snd (runInstall cs args resolved s')))
            else steps_shown (emitted s (snd (install cs args s))) = [(1, 1)]
       else if valid (validateNonTuiArgs args)
            then steps_shown (emitted s (snd (install cs args s))) =
                   steps_shown (emitted s (snd (runInstall cs args (argsToConfig args) s)))
            else steps_shown (emitted s (snd (install cs args s))) = []"
  proof (cases "tui args")
    case False
    show ?thesis
    proof (cases "valid (validateNonTuiArgs args)")
      case True
      with False show ?thesis by (simp add: install_valid_eq [OF False True])
    next
      case invalid: False
      with False show ?thesis by (simp add: install_invalid_eq [OF False invalid])
    qed
  next
    case True
    then show ?thesis
    proof (cases rule: install_tui_cases [where cs = cs and s = s])
      case (not_installed d w1 w2)
      with True show ?thesis by simp
    next
      case (rejected d w1 w2 v s' q)
      with True emitted_append [OF rejected(4)] show ?thesis by simp
    next
      case (answered d w1 w2 v config s' q)
      let ?r = "runInstall cs args config s'"
      have tr: "trace (snd ?r) = trace s' @ emitted s' (snd ?r)"
        by (rule runInstall_observed(1))
      have none: "reads (emitted s' (snd ?r)) = []" by (rule runInstall_observed(6))
      have "steps_shown (emitted s (snd (install cs args s))) =
          (1, 1) # steps_shown (emitted s' (snd ?r))"
        using answered(3,9) by (simp add: emitted_trans [OF answered(4) tr])
      moreover have "ReadThrows \<notin> set (reads (emitted s (snd (install cs args s))))"
        using answered(3,8) none by (simp add: emitted_trans [OF answered(4) tr])
      ultimately show ?thesis using True answered(1,2) by auto
    qed
  qed
qed

text \<open>
  The claim C4 as stated (one step count, 5 or 3, in all that the run shows) fails on an
  interactive run that resolves \<^verbatim>\<open>hasAntigravity\<close> to true: the first progress line
  carries the step count 1 and the later ones carry 5.
\<close>

theorem interactive_run_shows_two_step_counts:
  "steps_shown (emitted (initial typed) (snd (install ready_host interactive (initial typed)))) =
     [(1, 1), (1, 5), (2, 5), (3, 5), (4, 5), (5, 5)]"
  by (rule interactive_run(4))

text \<open>
  C1. When a delegated step of \<^verbatim>\<open>runInstall\<close> reports failure (a step result with
  \<^verbatim>\<open>success = false\<close>), the run returns 1 at once: the failing call is followed by the
  print of its error and by nothing else, so no collaborator is called after it.
\<close>

theorem runInstall_halts_at_failed_step:
  fixes cs :: "'w collaborators"
  assumes "Invoked c (Step r) \<in> set (emitted s (snd (runInstall cs args config s)))"
    and "\<not> success r"
  shows "fst (runInstall cs args config s) = 1 \<and>
    (\<exists>pre. emitted s (snd (runInstall cs args config s)) =
       pre @ [Invoked c (Step r), PrintError (''Failed: '' @ template (error r))])"
proof -
  obtain d w1 where d: "detectCurrentConfig cs (world s) = (d, w1)" by fastforce
  obtain i w2 where i: "isOpenCodeInstalled cs w1 = (i, w2)" by fastforce
  obtain v w3 where v: "getOpenCodeVersion cs w2 = (v, w3)" by fastforce
  obtain p w4 where p: "addPluginToOpenCodeConfig cs w3 = (p, w4)" by fastforce
  obtain a w5 where a: "addAuthPlugins cs config w4 = (a, w5)" by fastforce
  obtain pr w6 where pr: "addProviderConfig cs config w5 = (pr, w6)" by fastforce
  obtain l w7 where l: "writeLiteConfig cs config w6 = (l, w7)" by fastforce
  obtain l' w7' where l': "writeLiteConfig cs config w4 = (l', w7')" by fastforce
  note eq = runInstall_eq [OF d i v p a pr]
  let ?evs = "emitted s (snd (runInstall cs args config s))"
  let ?end = "[Invoked c (Step r), PrintError (''Failed: '' @ template (error r))]"
  consider (not_installed) "\<not> i"
    | (plugin_failed) "i" "\<not> success p"
    | (auth_failed) "i" "success p" "hasAntigravity config" "\<not> success a"
    | (provider_failed) "i" "success p" "hasAntigravity config" "success a" "\<not> success pr"
    | (finish_5) "i" "success p" "hasAntigravity config" "success a" "success pr"
    | (finish_3) "i" "success p" "\<not> hasAntigravity config"
    by blast
  then have "fst (runInstall cs args config s) = 1 \<and> ?evs = butlast (butlast ?evs) @ ?end"
  proof cases
    case not_installed
    with assms show ?thesis by (simp add: eq)
  next
    case plugin_failed
    with assms show ?thesis by (auto simp add: eq)
  next
    case auth_failed
    with assms show ?thesis by (auto simp add: eq)
  next
    case provider_failed
    with assms show ?thesis by (auto simp add: eq)
  next
    case finish_5
    with assms show ?thesis
      by (cases "success l") (auto simp add: eq runInstall_finish_eq [OF l])
  next
    case finish_3
    with assms show ?thesis
      by (cases "success l'") (auto simp add: eq runInstall_finish_eq [OF l'] split: if_splits)
  qed
  then show ?thesis by blast
qed

theorem runInstall_halts_at_failed_step_witness:
  "Invoked AddAuthPlugins (Step (step_failed ''denied''))
     \<in> set (emitted (initial [])
          (snd (runInstall
            (scripted_host fresh_host True (Some ''1.0'') (step_ok ''/p'') (step_failed ''denied'')
               (step_ok ''/p'') (step_ok ''/p''))
            \<lparr>tui = False, antigravity = Some ''yes'', openai = Some ''no'', cerebras = Some ''no''\<rparr>
            \<lparr>hasAntigravity = True, hasOpenAI = False, hasCerebras = False\<rparr> (initial []))))
   \<and> \<not> success (step_failed ''denied'')
   \<and> fst (runInstall
            (scripted_host fresh_host True (Some ''1.0'') (step_ok ''/p'') (step_failed ''denied'')
               (step_ok ''/p'') (step_ok ''/p''))
            \<lparr>tui = False, antigravity = Some ''yes'', openai = Some ''no'', cerebras = Some ''no''\<rparr>
            \<lparr>hasAntigravity = True, hasOpenAI = False, hasCerebras = False\<rparr> (initial [])) = 1
   \<and> calls (emitted (initial [])
          (snd (runInstall
            (scripted_host fresh_host True (Some ''1.0'') (step_ok ''/p'') (step_failed ''denied'')
               (step_ok ''/p'') (step_ok ''/p''))
            \<lparr>tui = False, antigravity = Some ''yes'', openai = Some ''no'', cerebras = Some ''no''\<rparr>
            \<lparr>hasAntigravity = True, hasOpenAI = False, hasCerebras = False\<rparr> (initial [])))) =
       [DetectCurrentConfig, IsOpenCodeInstalled, GetOpenCodeVersion, AddPluginToOpenCodeConfig,
        AddAuthPlugins]"
proof -
  let ?run = "runInstall
            (scripted_host fresh_host True (Some ''1.0'') (step_ok ''/p'') (step_failed ''denied'')
               (step_ok ''/p'') (step_ok ''/p''))
            \<lparr>tui = False, antigravity = Some ''yes'', openai = Some ''no'', cerebras = Some ''no''\<rparr>
            \<lparr>hasAntigravity = True, hasOpenAI = False, hasCerebras = False\<rparr> (initial [])"
  have mem: "Invoked AddAuthPlugins (Step (step_failed ''denied''))
     \<in> set (emitted (initial []) (snd ?run))"
    by (simp add: runInstall_scripted step_ok_def step_failed_def)
  have nf: "\<not> success (step_failed ''denied'')"
    by (simp add: step_failed_def)
  have c: "calls (emitted (initial []) (snd ?run)) =
       [DetectCurrentConfig, IsOpenCodeInstalled, GetOpenCodeVersion, AddPluginToOpenCodeConfig,
        AddAuthPlugins]"
    by (simp add: runInstall_scripted step_ok_def step_failed_def)
  from runInstall_halts_at_failed_step [OF mem nf] mem nf c show ?thesis by simp
qed

text \<open>
  C3. In a run of \<^verbatim>\<open>runInstall\<close> in which the host is installed and every delegated
  step reports success, the last collaborator called is \<^verbatim>\<open>writeLiteConfig\<close>, and what
  follows it decides the outcome: when the three capability flags are all false the run
  returns 1 and ends with the warning that no providers are configured; otherwise it
  returns 0 and the warning is not printed.
\<close>

theorem runInstall_no_providers_exits_1:
  fixes cs :: "'w collaborators"
  assumes "Invoked IsOpenCodeInstalled (Installed False)
             \<notin> set (emitted s (snd (runInstall cs args config s)))"
    and "\<forall>c r. Invoked c (Step r) \<in> set (emitted s (snd (runInstall cs args config s)))
           \<longrightarrow> success r"
  shows "fst (runInstall cs args config s) =
           (if \<not> hasAntigravity config \<and> \<not> hasOpenAI config \<and> \<not> hasCerebras config
            then 1 else 0)
    \<and> last (calls (emitted s (snd (runInstall cs args config s)))) = WriteLiteConfig
    \<and> (if \<not> hasAntigravity config \<and> \<not> hasOpenAI config \<and> \<not> hasCerebras config
        then last (emitted s (snd (runInstall cs args config s))) =
               PrintWarning ''No providers configured. At least one provider is required.''
        else PrintWarning ''No providers configured. At least one provider is required.''
               \<notin> set (emitted s (snd (runInstall cs args config s))))"
proof -
  obtain d w1 where d: "detectCurrentConfig cs (world s) = (d, w1)" by fastforce
  obtain i w2 where i: "isOpenCodeInstalled cs w1 = (i, w2)" by fastforce
  obtain v w3 where v: "getOpenCodeVersion cs w2 = (v, w3)" by fastforce
  obtain p w4 where p: "addPluginToOpenCodeConfig cs w3 = (p, w4)" by fastforce
  obtain a w5 where a: "addAuthPlugins cs config w4 = (a, w5)" by fastforce
  obtain pr w6 where pr: "addProviderConfig cs config w5 = (pr, w6)" by fastforce
  obtain l w7 where l: "writeLiteConfig cs config w6 = (l, w7)" by fastforce
  obtain l' w7' where l': "writeLiteConfig cs config w4 = (l', w7')" by fastforce
  note eq = runInstall_eq [OF d i v p a pr]
  let ?evs = "emitted s (snd (runInstall cs args config s))"
  from assms(2) have ok: "\<And>c r. Invoked c (Step r) \<in> set ?evs \<Longrightarrow> success r"
    by blast
  consider (not_installed) "\<not> i"
    | (plugin_failed) "i" "\<not> success p"
    | (auth_failed) "i" "success p" "hasAntigravity config" "\<not> success a"
    | (provider_failed) "i" "success p" "hasAntigravity config" "success a" "\<not> success pr"
    | (finish_5) "i" "success p" "hasAntigravity config" "success a" "success pr"
    | (finish_3) "i" "success p" "\<not> hasAntigravity config"
    by blast
  then show ?thesis
  proof cases
    case not_installed
    with assms(1) show ?thesis by (simp add: eq)
  next
    case plugin_failed
    then have "Invoked AddPluginToOpenCodeConfig (Step p) \<in> set ?evs" by (simp add: eq)
    with plugin_failed ok show ?thesis by blast
  next
    case auth_failed
    then have "Invoked AddAuthPlugins (Step a) \<in> set ?evs" by (simp add: eq)
    with auth_failed ok show ?thesis by blast
  next
    case provider_failed
    then have "Invoked AddProviderConfig (Step pr) \<in> set ?evs" by (simp add: eq)
    with provider_failed ok show ?thesis by blast
  next
    case finish_5
    show ?thesis
    proof (cases "success l")
      case True
      with finish_5 show ?thesis by (simp add: eq runInstall_finish_eq [OF l])
    next
      case False
      with finish_5 have "Invoked WriteLiteConfig (Step l) \<in> set ?evs"
        by (simp add: eq runInstall_finish_eq [OF l])
      with False ok show ?thesis by blast
    qed
  next
    case finish_3
    show ?thesis
    proof (cases "success l'")
      case True
      with finish_3 show ?thesis by (simp add: eq runInstall_finish_eq [OF l'])
    next
      case False
      with finish_3 have "Invoked WriteLiteConfig (Step l') \<in> set ?evs"
        by (simp add: eq runInstall_finish_eq [OF l'])
      with False ok show ?thesis by blast
    qed
  qed
qed

theorem runInstall_no_providers_exits_1_witness:
  "fst (runInstall
          (scripted_host fresh_host True (Some ''1.0'') (step_ok ''/p'') (step_ok ''/p'')
             (step_ok ''/p'') (step_ok ''/p''))
          \<lparr>tui = False, antigravity = Some ''no'', openai = Some ''no'', cerebras = Some ''no''\<rparr>
          \<lparr>hasAntigravity = False, hasOpenAI = False, hasCerebras = False\<rparr> (initial [])) = 1
   \<and> last (calls (emitted (initial [])
        (snd (runInstall
          (scripted_host fresh_host True (Some ''1.0'') (step_ok ''/p'') (step_ok ''/p'')
             (step_ok ''/p'') (step_ok ''/p''))
          \<lparr>tui = False, antigravity = Some ''no'', openai = Some ''no'', cerebras = Some ''no''\<rparr>
          \<lparr>hasAntigravity = False, hasOpenAI = False, hasCerebras = False\<rparr> (initial [])))))
       = WriteLiteConfig
   \<and> last (emitted (initial [])
        (snd (runInstall
          (scripted_host fresh_host True (Some ''1.0'') (step_ok ''/p'') (step_ok ''/p'')
             (step_ok ''/p'') (step_ok ''/p''))
          \<lparr>tui = False, antigravity = Some ''no'', openai = Some ''no'', cerebras = Some ''no''\<rparr>
          \<lparr>hasAntigravity = False, hasOpenAI = False, hasCerebras = False\<rparr> (initial []))))
       = PrintWarning ''No providers configured. At least one provider is required.''"
proof -
  let ?run = "runInstall
          (scripted_host fresh_host True (Some ''1.0'') (step_ok ''/p'') (step_ok ''/p'')
             (step_ok ''/p'') (step_ok ''/p''))
          \<lparr>tui = False, antigravity = Some ''no'', openai = Some ''no'', cerebras = Some ''no''\<rparr>
          \<lparr>hasAntigravity = False, hasOpenAI = False, hasCerebras = False\<rparr> (initial [])"
  have run: "calls (emitted (initial []) (snd ?run)) =
      [DetectCurrentConfig, IsOpenCodeInstalled, GetOpenCodeVersion, AddPluginToOpenCodeConfig,
       WriteLiteConfig]"
    by (simp add: runInstall_scripted runInstall_finish_scripted step_ok_def)
  have installed: "Invoked IsOpenCodeInstalled (Installed False)
      \<notin> set (emitted (initial []) (snd ?run))"
    by (simp add: runInstall_scripted runInstall_finish_scripted step_ok_def)
  have steps: "\<forall>c r. Invoked c (Step r) \<in> set (emitted (initial []) (snd ?run)) \<longrightarrow> success r"
    by (auto simp add: runInstall_scripted runInstall_finish_scripted step_ok_def)
  from runInstall_no_providers_exits_1 [OF installed steps] show ?thesis by simp
qed

text \<open>
  C6. When the read of a question returns (a line, or nothing because the stream closed),
  \<^verbatim>\<open>askYesNo\<close> raises no error and returns: the default when the line is blank, that
  is empty once trimmed, or the stream gave no data; yes when the line says \<^verbatim>\<open>y\<close> or
  \<^verbatim>\<open>yes\<close>, in any case and with only white space around the word; no when it says
  \<^verbatim>\<open>n\<close> or \<^verbatim>\<open>no\<close> likewise; the default for any other input.
\<close>

theorem askYesNo_resolves_answer:
  fixes cs :: "'w collaborators"
  assumes "fst (stdin_read cs (world s)) = ReadValue input"
  shows "fst (askYesNo cs prompt d s) = Inr (expected_answer d input)"
proof (cases rule: askYesNo_cases [where cs = cs and prompt = prompt and dv = d and s = s])
  case (answered val ans s')
  with assms have "val = input" by simp
  with answered(1,5) show ?thesis by (simp add: expected_answer_eq)
next
  case (rejected s')
  with assms show ?thesis by simp
qed

theorem askYesNo_resolves_answer_witness:
  "fst (askYesNo ready_host ''Do you have access to OpenAI API?'' ''no''
          (initial [ReadValue (Some (units ''Y''))])) = Inr ''yes''
   \<and> fst (askYesNo ready_host ''Do you have access to OpenAI API?'' ''no''
          (initial [ReadValue (Some (0xA0 # units ''yes''))])) = Inr ''yes''
   \<and> fst (askYesNo ready_host ''Do you have access to OpenAI API?'' ''yes''
          (initial [ReadValue (Some (units ('' nO'' @ newline)))])) = Inr ''no''
   \<and> fst (askYesNo ready_host ''Do you have access to OpenAI API?'' ''yes''
          (initial [ReadValue (Some [])])) = Inr ''yes''
   \<and> fst (askYesNo ready_host ''Do you have access to OpenAI API?'' ''yes''
          (initial [ReadValue (Some (units ''maybe''))])) = Inr ''yes''
   \<and> fst (askYesNo ready_host ''Do you have access to OpenAI API?'' ''yes''
          (initial [])) = Inr ''yes''"
proof -
  have read: "\<And>x. fst (stdin_read ready_host (world (initial [ReadValue x]))) = ReadValue x"
    by (simp add: ready_host_def stdin_read_scripted initial_def)
  have closed: "fst (stdin_read ready_host (world (initial []))) = ReadValue None"
    by (simp add: ready_host_def stdin_read_scripted initial_def)
  have normal: "toLowerCase (trim (units ''Y'')) = units ''y''"
    "toLowerCase (trim (0xA0 # units ''yes'')) = units ''yes''"
    "toLowerCase (trim (units ('' nO'' @ newline))) = units ''no''"
    "toLowerCase (trim (units ''maybe'')) = units ''maybe''"
    "toLowerCase (trim []) = []"
    by (simp_all add: units_def trim_def toLowerCase_def toLowerCase_unit_def isWhiteSpace_def
        newline_def)
  have expected: "expected_answer ''no'' (Some (units ''Y'')) = ''yes''"
    "expected_answer ''no'' (Some (0xA0 # units ''yes'')) = ''yes''"
    "expected_answer ''yes'' (Some (units ('' nO'' @ newline))) = ''no''"
    "expected_answer ''yes'' (Some []) = ''yes''"
    "expected_answer ''yes'' (Some (units ''maybe'')) = ''yes''"
    "expected_answer ''yes'' None = ''yes''"
    by (simp_all only: expected_answer_eq option.case normal Let_def)
      (simp_all add: units_def newline_def)
  show ?thesis
    using askYesNo_resolves_answer [where prompt = "''Do you have access to OpenAI API?''"
        and d = "''no''", OF read [of "Some (units ''Y'')"]]
      askYesNo_resolves_answer [where prompt = "''Do you have access to OpenAI API?''"
        and d = "''no''", OF read [of "Some (0xA0 # units ''yes'')"]]
      askYesNo_resolves_answer [where prompt = "''Do you have access to OpenAI API?''"
        and d = "''yes''", OF read [of "Some (units ('' nO'' @ newline))"]]
      askYesNo_resolves_answer [where prompt = "''Do you have access to OpenAI API?''"
        and d = "''yes''", OF read [of "Some []"]]
      askYesNo_resolves_answer [where prompt = "''Do you have access to OpenAI API?''"
        and d = "''yes''", OF read [of "Some (units ''maybe'')"]]
      askYesNo_resolves_answer [where prompt = "''Do you have access to OpenAI API?''"
        and d = "''yes''", OF closed]
    by (simp only: expected)
qed

text \<open>
  C8, as amended. The reader acquired for a question is released right after the read
  when the read returns: the run holds as many readers after the question as before it.
  There is no \<^verbatim>\<open>try\<close>/\<^verbatim>\<open>finally\<close> around the read: when the read rejects, the
  rejection leaves \<^verbatim>\<open>askYesNo\<close> at the \<^verbatim>\<open>await\<close> and \<^verbatim>\<open>reader.releaseLock()\<close> is
  not reached, so one more reader is held than before.
\<close>

theorem askYesNo_releases_reader_after_returned_read:
  fixes cs :: "'w collaborators"
  shows "(case fst (stdin_read cs (world s)) of
        ReadValue val \<Rightarrow>
          held (snd (askYesNo cs prompt d s)) = held s
          \<and> (\<exists>text. emitted s (snd (askYesNo cs prompt d s)) =
                [StdoutWrite text, GetReader, Read (ReadValue val), ReleaseLock])
      | ReadThrows \<Rightarrow>
          fst (askYesNo cs prompt d s) = Inl ReadRejected
          \<and> held (snd (askYesNo cs prompt d s)) = Suc (held s)
          \<and> (\<exists>text. emitted s (snd (askYesNo cs prompt d s)) =
                [StdoutWrite text, GetReader, Read ReadThrows]))"
proof (cases rule: askYesNo_cases [where cs = cs and prompt = prompt and dv = d and s = s])
  case (answered val ans s')
  then show ?thesis by (simp add: emitted_def)
next
  case (rejected s')
  then show ?thesis by (simp add: emitted_def)
qed

text \<open>
  The claim C8 as stated (the reader is released also when the read throws) fails on a
  question whose read rejects: the reader is still held when \<^verbatim>\<open>askYesNo\<close> is left.
\<close>

theorem askYesNo_rejected_read_keeps_reader:
  "fst (askYesNo (scripted_host fresh_host True None (step_ok []) (step_ok []) (step_ok [])
          (step_ok [])) ''Do you have access to OpenAI API?'' ''no'' (initial [ReadThrows]))
     = Inl ReadRejected
   \<and> held (initial [ReadThrows]) = 0
   \<and> held (snd (askYesNo (scripted_host fresh_host True None (step_ok []) (step_ok [])
          (step_ok []) (step_ok [])) ''Do you have access to OpenAI API?'' ''no''
          (initial [ReadThrows]))) = 1
   \<and> ReleaseLock \<notin> set (trace (snd (askYesNo (scripted_host fresh_host True None (step_ok [])
          (step_ok []) (step_ok []) (step_ok [])) ''Do you have access to OpenAI API?'' ''no''
          (initial [ReadThrows]))))"
  by (simp add: askYesNo_def Let_def print_defs getReader_def reader_read_def emit_def
      stdin_read_scripted initial_def)


text \<open>
  C2. When \<^verbatim>\<open>isOpenCodeInstalled\<close> resolves false, the run exits with 1 and none of
  \<^verbatim>\<open>addPluginToOpenCodeConfig\<close>, \<^verbatim>\<open>addAuthPlugins\<close>, \<^verbatim>\<open>addProviderConfig\<close> and
  \<^verbatim>\<open>writeLiteConfig\<close> is called: in \<^verbatim>\<open>runInstall\<close> the only calls are the detection
  and the check itself, and the same holds of a whole run of \<^verbatim>\<open>install\<close> in either mode,
  whichever of its checks resolves false.
\<close>

theorem install_stops_when_host_not_installed:
  fixes cs :: "'w collaborators"
  shows "(Invoked IsOpenCodeInstalled (Installed False)
            \<in> set (emitted s (snd (runInstall cs args config s)))
          \<longrightarrow> fst (runInstall cs args config s) = 1
              \<and> calls (emitted s (snd (runInstall cs args config s))) =
                  [DetectCurrentConfig, IsOpenCodeInstalled])
    \<and> (Invoked IsOpenCodeInstalled (Installed False)
            \<in> set (emitted s (snd (install cs args s)))
          \<longrightarrow> fst (install cs args s) = Inr 1
              \<and> set (calls (emitted s (snd (install cs args s))))
                  \<inter> {AddPluginToOpenCodeConfig, AddAuthPlugins, AddProviderConfig,
                       WriteLiteConfig} = {})"
proof (intro conjI impI)
  assume "Invoked IsOpenCodeInstalled (Installed False)
            \<in> set (emitted s (snd (runInstall cs args config s)))"
  then have "\<not> fst (isOpenCodeInstalled cs (snd (detectCurrentConfig cs (world s))))"
    by (simp add: runInstall_observed(8))
  then show "fst (runInstall cs args config s) = 1"
    and "calls (emitted s (snd (runInstall cs args config s))) =
           [DetectCurrentConfig, IsOpenCodeInstalled]"
    by (rule runInstall_observed(9), rule runInstall_observed(10))
next
  let ?stop = "Invoked IsOpenCodeInstalled (Installed False)"
  let ?later = "{AddPluginToOpenCodeConfig, AddAuthPlugins, AddProviderConfig, WriteLiteConfig}"
  assume stop: "?stop \<in> set (emitted s (snd (install cs args s)))"
  have "fst (install cs args s) = Inr 1
      \<and> set (calls (emitted s (snd (install cs args s)))) \<inter> ?later = {}"
  proof (cases "tui args")
    case False
    show ?thesis
    proof (cases "valid (validateNonTuiArgs args)")
      case True
      let ?config = "argsToConfig args"
      from stop have "\<not> fst (isOpenCodeInstalled cs (snd (detectCurrentConfig cs (world s))))"
        by (simp add: install_valid_eq [OF False True] runInstall_observed(8))
      from runInstall_observed(9) [OF this] runInstall_observed(10) [OF this]
      show ?thesis by (simp add: install_valid_eq [OF False True])
    next
      case invalid: False
      from stop show ?thesis
        by (auto simp add: install_invalid_eq [OF False invalid])
    qed
  next
    case True
    then show ?thesis
    proof (cases rule: install_tui_cases [where cs = cs and s = s])
      case (not_installed d w1 w2)
      then show ?thesis by simp
    next
      case (rejected d w1 w2 v s' q)
      from rejected(5) have "?stop \<notin> set q" by (rule calls_empty)
      with stop rejected(3) emitted_append [OF rejected(4)] show ?thesis by simp
    next
      case (answered d w1 w2 v config s' q)
      let ?r = "runInstall cs args config s'"
      let ?evs = "emitted s' (snd ?r)"
      from answered(5) have quiet: "?stop \<notin> set q" by (rule calls_empty)
      have tr: "trace (snd ?r) = trace s' @ ?evs" by (rule runInstall_observed(1))
      note full = emitted_trans [OF answered(4) tr]
      from stop answered(3) quiet have "?stop \<in> set ?evs" by (simp add: full)
      then have "\<not> fst (isOpenCodeInstalled cs (snd (detectCurrentConfig cs (world s'))))"
        by (simp add: runInstall_observed(8))
      from runInstall_observed(9) [OF this] runInstall_observed(10) [OF this] answered(3,5)
      show ?thesis by (simp add: full)
    qed
  qed
  then show "fst (install cs args s) = Inr 1"
    and "set (calls (emitted s (snd (install cs args s)))) \<inter> ?later = {}"
    by blast+
qed


theorem install_stops_when_host_not_installed_witness:
  "Invoked IsOpenCodeInstalled (Installed False)
     \<in> set (emitted (initial [])
          (snd (runInstall absent_host interactive
             \<lparr>hasAntigravity = True, hasOpenAI = False, hasCerebras = False\<rparr> (initial []))))
   \<and> fst (runInstall absent_host interactive
             \<lparr>hasAntigravity = True, hasOpenAI = False, hasCerebras = False\<rparr> (initial [])) = 1
   \<and> calls (emitted (initial [])
          (snd (runInstall absent_host interactive
             \<lparr>hasAntigravity = True, hasOpenAI = False, hasCerebras = False\<rparr> (initial [])))) =
         [DetectCurrentConfig, IsOpenCodeInstalled]
   \<and> Invoked IsOpenCodeInstalled (Installed False)
     \<in> set (emitted (initial typed) (snd (install absent_host interactive (initial typed))))
   \<and> fst (install absent_host interactive (initial typed)) = Inr 1
   \<and> set (calls (emitted (initial typed) (snd (install absent_host interactive (initial typed)))))
        \<inter> {AddPluginToOpenCodeConfig, AddAuthPlugins, AddProviderConfig, WriteLiteConfig} = {}"
proof -
  have orchestrated: "Invoked IsOpenCodeInstalled (Installed False)
     \<in> set (emitted (initial [])
          (snd (runInstall absent_host interactive
             \<lparr>hasAntigravity = True, hasOpenAI = False, hasCerebras = False\<rparr> (initial []))))"
    by (simp add: absent_host_def runInstall_scripted)
  have whole: "Invoked IsOpenCodeInstalled (Installed False)
     \<in> set (emitted (initial typed) (snd (install absent_host interactive (initial typed))))"
    by (simp add: absent_host_def interactive_def
        install_tui_eq [OF _ scripted_host_simps(1) scripted_host_simps(2) scripted_host_simps(3)])
  from install_stops_when_host_not_installed
    [where cs = absent_host and s = "initial []" and args = interactive
      and config = "\<lparr>hasAntigravity = True, hasOpenAI = False, hasCerebras = False\<rparr>"]
    install_stops_when_host_not_installed
    [where cs = absent_host and s = "initial typed" and args = interactive
      and config = "\<lparr>hasAntigravity = True, hasOpenAI = False, hasCerebras = False\<rparr>"]
    orchestrated whole
  show ?thesis by blast
qed

text \<open>
  C7, as amended. Every pass renders its own header, framed by the detection made just
  before it. \<^verbatim>\<open>runInstall\<close> begins with a call of \<^verbatim>\<open>detectCurrentConfig\<close> and the
  header framed by the \<^verbatim>\<open>isInstalled\<close> it returned, before any step, and renders no
  other header. A run of \<^verbatim>\<open>install\<close> without \<^verbatim>\<open>tui\<close> renders one header: that of
  \<^verbatim>\<open>runInstall\<close>, or with rejected arguments a header with the install framing and no
  detection. An interactive run renders the header of \<^verbatim>\<open>install\<close> from a first
  detection and, when the host is installed and no read rejects, the header of
  \<^verbatim>\<open>runInstall\<close> from a second detection.
\<close>

theorem header_framing_per_pass:
  fixes cs :: "'w collaborators"
  shows "detections_and_headers (emitted s (snd (runInstall cs args config s))) =
       [Inl (isInstalled (fst (detectCurrentConfig cs (world s)))),
        Inr (isInstalled (fst (detectCurrentConfig cs (world s))))]
    \<and> take 2 (emitted s (snd (runInstall cs args config s))) =
       [Invoked DetectCurrentConfig (Detected (fst (detectCurrentConfig cs (world s)))),
        PrintHeader (isInstalled (fst (detectCurrentConfig cs (world s))))]
    \<and> (if tui args
        then if fst (isOpenCodeInstalled cs (snd (detectCurrentConfig cs (world s))))
                \<and> ReadThrows \<notin> set (reads (emitted s (snd (install cs args s))))
             then \<exists>b. detections_and_headers (emitted s (snd (install cs args s))) =
                    [Inl (isInstalled (fst (detectCurrentConfig cs (world s)))),
                     Inr (isInstalled (fst (detectCurrentConfig cs (world s)))), Inl b, Inr b]
             else detections_and_headers (emitted s (snd (install cs args s))) =
                    [Inl (isInstalled (fst (detectCurrentConfig cs (world s)))),
                     Inr (isInstalled (fst (detectCurrentConfig cs (world s))))]
        else if valid (validateNonTuiArgs args)
             then detections_and_headers (emitted s (snd (install cs args s))) =
                    [Inl (isInstalled (fst (detectCurrentConfig cs (world s)))),
                     Inr (isInstalled (fst (detectCurrentConfig cs (world s))))]
             else detections_and_headers (emitted s (snd (install cs args s))) = [Inr False])"
proof (intro conjI)
  show "detections_and_headers (emitted s (snd (runInstall cs args config s))) =
       [Inl (isInstalled (fst (detectCurrentConfig cs (world s)))),
        Inr (isInstalled (fst (detectCurrentConfig cs (world s))))]"
    by (rule runInstall_observed(4))
  show "take 2 (emitted s (snd (runInstall cs args config s))) =
       [Invoked DetectCurrentConfig (Detected (fst (detectCurrentConfig cs (world s)))),
        PrintHeader (isInstalled (fst (detectCurrentConfig cs (world s))))]"
    by (rule runInstall_observed(5))
  show "if tui args
        then if fst (isOpenCodeInstalled cs (snd (detectCurrentConfig cs (world s))))
                \<and> ReadThrows \<notin> set (reads (emitted s (snd (install cs args s))))
             then \<exists>b. detections_and_headers (emitted s (snd (install cs args s))) =
                    [Inl (isInstalled (fst (detectCurrentConfig cs (world s)))),
                     Inr (isInstalled (fst (detectCurrentConfig cs (world s)))), Inl b, Inr b]
             else detections_and_headers (emitted s (snd (install cs args s))) =
                    [Inl (isInstalled (fst (detectCurrentConfig cs (world s)))),
                     Inr (isInstalled (fst (detectCurrentConfig cs (world s))))]
        else if valid (validateNonTuiArgs args)
             then detections_and_headers (emitted s (snd (install cs args s))) =
                    [Inl (isInstalled (fst (detectCurrentConfig cs (world s)))),
                     Inr (isInstalled (fst (detectCurrentConfig cs (world s))))]
             else detections_and_headers (emitted s (snd (install cs args s))) = [Inr False]"
  proof (cases "tui args")
    case False
    show ?thesis
    proof (cases "valid (validateNonTuiArgs args)")
      case True
      with False show ?thesis
        by (simp add: install_valid_eq [OF False True] runInstall_observed(4))
    next
      case invalid: False
      with False show ?thesis
        by (simp add: install_invalid_eq [OF False invalid])
    qed
  next
    case True
    then show ?thesis
    proof (cases rule: install_tui_cases [where cs = cs and s = s])
      case (not_installed d w1 w2)
      with True show ?thesis by simp
    next
      case (rejected d w1 w2 v s' q)
      with True emitted_append [OF rejected(4)] show ?thesis
        by (simp add: detections_and_headers_quiet)
    next
      case (answered d w1 w2 v config s' q)
      let ?r = "runInstall cs args config s'"
      let ?evs = "emitted s' (snd ?r)"
      have tr: "trace (snd ?r) = trace s' @ ?evs" by (rule runInstall_observed(1))
      have again: "detections_and_headers ?evs =
          [Inl (isInstalled (fst (detectCurrentConfig cs (world s')))),
           Inr (isInstalled (fst (detectCurrentConfig cs (world s'))))]"
        by (rule runInstall_observed(4))
      have none: "reads ?evs = []" by (rule runInstall_observed(6))
      from True again none answered(1,2,3,5,6,8) show ?thesis
        by (simp add: emitted_trans [OF answered(4) tr] detections_and_headers_quiet)
    qed
  qed
qed


text \<open>
  The claim C7 as stated (one header in every run) fails on an interactive run with the
  host installed: the header is rendered twice.
\<close>

theorem interactive_run_renders_header_twice:
  "headers (emitted (initial typed) (snd (install ready_host interactive (initial typed)))) =
     [False, False]
   \<and> detections_and_headers
        (emitted (initial typed) (snd (install ready_host interactive (initial typed)))) =
     [Inl False, Inr False, Inl False, Inr False]"
  unfolding ready_host_def interactive_def typed_def
  apply (simp_all add: install_tui_eq [OF _ scripted_host_simps(1) scripted_host_simps(2)
          scripted_host_simps(3)])
  apply (simp_all add: runTuiMode_def askYesNo_def Let_def print_defs getReader_def
        releaseLock_def reader_read_def stdin_read_scripted initial_def
        detectedToInitialValues_def fresh_host_def emit_def advance_def typed_answers)
  apply (simp_all add: units_def newline_def)
  apply (simp_all add: runInstall_scripted runInstall_finish_scripted step_ok_def emitted_def)
  done

text \<open>
  C9. In an interactive run in which the host is installed and the three questions are
  answered (no read rejects), \<^verbatim>\<open>detectCurrentConfig\<close>, \<^verbatim>\<open>isOpenCodeInstalled\<close> and
  \<^verbatim>\<open>getOpenCodeVersion\<close> are each called twice: once, in this order, before the three
  reads, and once more, in this order, after them.
\<close>

theorem interactive_preflight_runs_twice:
  fixes cs :: "'w collaborators"
  assumes "tui args"
    and "\<And>w. fst (isOpenCodeInstalled cs w)"
    and "ReadThrows \<notin> set (reads (emitted s (snd (install cs args s))))"
  shows "preflight_and_reads (emitted s (snd (install cs args s))) =
     [Some DetectCurrentConfig, Some IsOpenCodeInstalled, Some GetOpenCodeVersion,
      None, None, None,
      Some DetectCurrentConfig, Some IsOpenCodeInstalled, Some GetOpenCodeVersion]"
  using assms(1)
proof (cases rule: install_tui_cases [where cs = cs and s = s])
  case (not_installed d w1 w2)
  with assms(2) [of w1] show ?thesis by simp
next
  case (rejected d w1 w2 v s' q)
  with assms(3) emitted_append [OF rejected(4)] show ?thesis by simp
next
  case (answered d w1 w2 v config s' q)
  let ?r = "runInstall cs args config s'"
  let ?evs = "emitted s' (snd ?r)"
  have tr: "trace (snd ?r) = trace s' @ ?evs" by (rule runInstall_observed(1))
  have again: "preflight_and_reads ?evs =
      [Some DetectCurrentConfig, Some IsOpenCodeInstalled, Some GetOpenCodeVersion]"
    by (simp add: runInstall_observed(7) assms(2))
  have questions: "preflight_and_reads q = [None, None, None]"
    using answered(5,7) by (simp add: preflight_and_reads_no_calls three_reads)
  from answered(3) again questions show ?thesis
    by (simp add: emitted_trans [OF answered(4) tr])
qed

theorem interactive_preflight_runs_twice_witness:
  "tui interactive
   \<and> preflight_and_reads
        (emitted (initial typed) (snd (install ready_host interactive (initial typed)))) =
     [Some DetectCurrentConfig, Some IsOpenCodeInstalled, Some GetOpenCodeVersion,
      None, None, None,
      Some DetectCurrentConfig, Some IsOpenCodeInstalled, Some GetOpenCodeVersion]"
proof -
  have mode: "tui interactive" by (simp add: interactive_def)
  have installed: "\<And>w. fst (isOpenCodeInstalled ready_host w)"
    by (simp add: ready_host_def scripted_host_simps)
  have answered: "ReadThrows \<notin> set (reads (emitted (initial typed)
      (snd (install ready_host interactive (initial typed)))))"
    by (simp add: interactive_run(2)) (simp add: typed_def)
  from interactive_preflight_runs_twice [OF mode installed answered] mode
  show ?thesis by simp
qed

text \<open>
  C10. \<^verbatim>\<open>runTuiMode\<close> never returns \<^verbatim>\<open>null\<close>: it returns a configuration after
  three reads when none of them rejects, and otherwise it is left by the rejection. So
  the branch of \<^verbatim>\<open>install\<close> that returns 1 on a \<^verbatim>\<open>null\<close> result is never taken: an
  interactive run with the host installed that is not left by a rejection returns what
  \<^verbatim>\<open>runInstall\<close> returns.
\<close>

theorem runTuiMode_never_null:
  fixes cs :: "'w collaborators"
  shows "fst (runTuiMode cs detected s) \<noteq> Inr None
    \<and> (if ReadThrows \<in> set (reads (emitted s (snd (runTuiMode cs detected s))))
        then fst (runTuiMode cs detected s) = Inl ReadRejected
        else (\<exists>config. fst (runTuiMode cs detected s) = Inr (Some config))
             \<and> length (reads (emitted s (snd (runTuiMode cs detected s)))) = 3)
    \<and> (tui args
        \<and> fst (isOpenCodeInstalled cs (snd (detectCurrentConfig cs (world s))))
        \<and> fst (install cs args s) \<noteq> Inl ReadRejected
        \<longrightarrow> (\<exists>config s'. install cs args s =
               (Inr (fst (runInstall cs args config s')), snd (runInstall cs args config s'))))"
proof (intro conjI impI)
  show "fst (runTuiMode cs detected s) \<noteq> Inr None"
    by (cases rule: runTuiMode_cases [where cs = cs and d = detected and s = s]) simp_all
  show "if ReadThrows \<in> set (reads (emitted s (snd (runTuiMode cs detected s))))
        then fst (runTuiMode cs detected s) = Inl ReadRejected
        else (\<exists>config. fst (runTuiMode cs detected s) = Inr (Some config))
             \<and> length (reads (emitted s (snd (runTuiMode cs detected s)))) = 3"
    by (cases rule: runTuiMode_cases [where cs = cs and d = detected and s = s])
      (simp_all add: emitted_def)
next
  assume a: "tui args
        \<and> fst (isOpenCodeInstalled cs (snd (detectCurrentConfig cs (world s))))
        \<and> fst (install cs args s) \<noteq> Inl ReadRejected"
  then have "tui args" by simp
  then show "\<exists>config s'. install cs args s =
               (Inr (fst (runInstall cs args config s')), snd (runInstall cs args config s'))"
  proof (cases rule: install_tui_cases [where cs = cs and s = s])
    case (not_installed d w1 w2)
    with a show ?thesis by simp
  next
    case (rejected d w1 w2 v s' q)
    with a show ?thesis by simp
  next
    case (answered d w1 w2 v config s' q)
    then show ?thesis by blast
  qed
qed

theorem runTuiMode_never_null_witness:
  "tui interactive
   \<and> fst (isOpenCodeInstalled ready_host
        (snd (detectCurrentConfig ready_host (world (initial typed)))))
   \<and> fst (install ready_host interactive (initial typed)) = Inr 0
   \<and> (\<exists>config s'. install ready_host interactive (initial typed) =
         (Inr (fst (runInstall ready_host interactive config s')),
          snd (runInstall ready_host interactive config s')))"
proof -
  have mode: "tui interactive" by (simp add: interactive_def)
  have installed: "fst (isOpenCodeInstalled ready_host
      (snd (detectCurrentConfig ready_host (world (initial typed)))))"
    by (simp add: ready_host_def scripted_host_simps)
  have returned: "fst (install ready_host interactive (initial typed)) \<noteq> Inl ReadRejected"
    by (simp add: interactive_run(1))
  from runTuiMode_never_null [of ready_host fresh_host "initial typed" interactive]
    mode installed returned interactive_run(1)
  show ?thesis by blast
qed

end
